theory Spec2Isabelle
  imports Main "HOL-Library.Word"
begin

section \<open>Process termination and the standard-library pieces the driver calls\<close>

text \<open>
  The driver never recovers from an error.  A run ends in one of three abnormal ways:
  \<^item> \<open>ExitWithMsg\<close> writes one line to the error stream and calls \<open>exit(1)\<close>;
  \<^item> an exception of the standard library (\<open>std::stoi\<close>) is never caught and ends the
    process through \<open>std::terminate\<close>;
  \<^item> the behaviour is undefined (a read past the end of a vector or string).
  Every function that can end the run returns \<open>failure + 'a\<close>.
\<close>

datatype failure =
    Exit string
  | Uncaught string
  | Undefined string

definition ExitWithMsg :: "string \<Rightarrow> failure + 'a" where
  "ExitWithMsg msg = Inl (Exit msg)"

definition Check :: "bool \<Rightarrow> string \<Rightarrow> failure + unit" where
  "Check cond msg = (if \<not> cond then ExitWithMsg msg else Inr ())"

text \<open>Sequencing of steps that can end the run.\<close>

fun bindE :: "failure + 'a \<Rightarrow> ('a \<Rightarrow> failure + 'b) \<Rightarrow> failure + 'b" where
  "bindE (Inl e) f = Inl e"
| "bindE (Inr x) f = f x"

text \<open>
  \<open>Log\<close> writes its argument to the error stream when \<open>VERBOSE\<close> is set and does nothing
  else; the trace text is not part of the model.  Its argument is built before the call
  whether or not \<open>VERBOSE\<close> is set, so where building it can fail the model keeps that
  evaluation (\<open>Log_arg\<close>).
\<close>

definition Log_arg :: "failure + string \<Rightarrow> failure + unit" where
  "Log_arg msg = bindE msg (\<lambda>_. Inr ())"

subsection \<open>\<open>int\<close>, \<open>std::to_string\<close> and \<open>std::stoi\<close>\<close>

definition INT_MAX :: int where
  "INT_MAX = 2147483647"

definition INT_MIN :: int where
  "INT_MIN = - 2147483648"

text \<open>Arithmetic on \<open>int\<close> is modelled as two's complement on 32 bits.\<close>

definition wrap32 :: "int \<Rightarrow> int" where
  "wrap32 x = (x + 2147483648) mod 4294967296 - 2147483648"

definition is_digit :: "char \<Rightarrow> bool" where
  "is_digit c = (c \<in> set ''0123456789'')"

definition isspace :: "char \<Rightarrow> bool" where
  "isspace c = (c \<in> set [CHR '' '', CHR 0x09, CHR 0x0A, CHR 0x0B, CHR 0x0C, CHR 0x0D])"

definition digit_val :: "char \<Rightarrow> nat" where
  "digit_val c = of_char c - 48"

definition digit_char :: "nat \<Rightarrow> char" where
  "digit_char d = ''0123456789'' ! d"

definition digits_val :: "string \<Rightarrow> nat" where
  "digits_val ds = foldl (\<lambda>acc c. 10 * acc + digit_val c) 0 ds"

fun dec :: "nat \<Rightarrow> string" where
  "dec n = (if n < 10 then [digit_char n] else dec (n div 10) @ [digit_char (n mod 10)])"

declare dec.simps [simp del]

definition to_string :: "int \<Rightarrow> string" where
  "to_string n = (if n < 0 then CHR ''-'' # dec (nat (- n)) else dec (nat n))"

text \<open>
  \<open>std::stoi\<close> is \<open>strtol\<close> in base 10: leading white space is skipped, one sign is
  accepted, the longest run of digits is read and whatever follows is ignored.  No digit
  throws \<open>std::invalid_argument\<close>, a value outside \<open>int\<close> throws \<open>std::out_of_range\<close>.
\<close>

definition stoi :: "string \<Rightarrow> failure + int" where
  "stoi s =
     (let t = dropWhile isspace s;
          neg = (t \<noteq> [] \<and> hd t = CHR ''-'');
          u = (if t \<noteq> [] \<and> (hd t = CHR ''-'' \<or> hd t = CHR ''+'') then tl t else t);
          ds = takeWhile is_digit u;
          v = (if neg then - int (digits_val ds) else int (digits_val ds))
      in if ds = [] then Inl (Uncaught ''std::invalid_argument: stoi'')
         else if v < INT_MIN \<or> INT_MAX < v then Inl (Uncaught ''std::out_of_range: stoi'')
         else Inr v)"

subsection \<open>\<open>std::getline\<close> with a delimiter\<close>

text \<open>
  The tokens that \<open>while (std::getline(stream, tok, d))\<close> reads from a string stream: each
  call takes the characters up to the next delimiter (which it consumes) or up to the end;
  the loop ends when a call extracts nothing.
\<close>

function getline_all :: "char \<Rightarrow> string \<Rightarrow> string list" where
  "getline_all d s =
     (if s = [] then []
      else takeWhile (\<lambda>c. c \<noteq> d) s # getline_all d (drop 1 (dropWhile (\<lambda>c. c \<noteq> d) s)))"
  by pat_completeness auto
termination
proof (relation "measure (\<lambda>(d, s). length s)")
  show "wf (measure (\<lambda>(d, s). length s))" by simp
next
  fix d :: char and s :: string
  assume "s \<noteq> []"
  have "length (dropWhile (\<lambda>c. c \<noteq> d) s) \<le> length s"
    by (rule length_dropWhile_le)
  with \<open>s \<noteq> []\<close> show "((d, drop 1 (dropWhile (\<lambda>c. c \<noteq> d) s)), (d, s)) \<in> measure (\<lambda>(d, s). length s)"
    by (cases s) auto
qed

declare getline_all.simps [simp del]

subsection \<open>\<open>std::regex\<close> (ECMAScript grammar)\<close>

text \<open>
  The four patterns of the driver use literal characters, \<open>.\<close>, the classes \<open>[0-9]\<close>
  and \<open>[^c]\<close>, the greedy quantifiers \<open>+\<close> and \<open>*\<close> on one of these, and capture groups.
  A pattern is the list of its items, a capture group being the items between \<open>Open\<close>
  and \<open>Close\<close>.  \<open>.\<close> matches every character but a line terminator.
\<close>

datatype atom = Lit char | Dot | Digit | NotChar char

datatype item = One atom | Plus atom | Star atom | Open | Close

fun accepts :: "atom \<Rightarrow> char \<Rightarrow> bool" where
  "accepts (Lit a) c = (c = a)"
| "accepts Dot c = (c \<noteq> CHR 0x0A \<and> c \<noteq> CHR 0x0D)"
| "accepts Digit c = is_digit c"
| "accepts (NotChar a) c = (c \<noteq> a)"

text \<open>
  \<open>match_here full r s\<close> matches the pattern \<open>r\<close> at the start of \<open>s\<close> the way a
  backtracking matcher does: a greedy quantifier first takes one more character and only
  gives it back when the rest of the pattern fails.  With \<open>full\<close> the match must end at
  the end of \<open>s\<close> (\<open>std::regex_match\<close>).  The result lists the text that remained at each
  \<open>Open\<close> and \<open>Close\<close>, in order, and at the end of the match.
\<close>

fun match_here :: "bool \<Rightarrow> item list \<Rightarrow> string \<Rightarrow> string list option" where
  "match_here full [] s = (if full \<and> s \<noteq> [] then None else Some [s])"
| "match_here full (Open # r) s = map_option (Cons s) (match_here full r s)"
| "match_here full (Close # r) s = map_option (Cons s) (match_here full r s)"
| "match_here full (One a # r) [] = None"
| "match_here full (One a # r) (c # cs) =
     (if accepts a c then match_here full r cs else None)"
| "match_here full (Plus a # r) [] = None"
| "match_here full (Plus a # r) (c # cs) =
     (if accepts a c then match_here full (Star a # r) cs else None)"
| "match_here full (Star a # r) [] = match_here full r []"
| "match_here full (Star a # r) (c # cs) =
     (if accepts a c
      then (case match_here full (Star a # r) cs of
              Some m \<Rightarrow> Some m
            | None \<Rightarrow> match_here full r (c # cs))
      else match_here full r (c # cs))"

text \<open>
  The sub-matches \<open>match[1]\<close>, \<open>match[2]\<close>, ... of a successful match: the text between
  each \<open>Open\<close> and its \<open>Close\<close> (the groups of the driver's patterns are not nested).
\<close>

fun groups :: "string list \<Rightarrow> string list" where
  "groups (a # b # rest) = take (length a - length b) a # groups rest"
| "groups _ = []"

definition regex_match :: "item list \<Rightarrow> string \<Rightarrow> string list option" where
  "regex_match r s = map_option groups (match_here True r s)"

text \<open>\<open>std::regex_search\<close>: the first position of \<open>s\<close>, from the left, where the pattern matches.\<close>

fun regex_search :: "item list \<Rightarrow> string \<Rightarrow> string list option" where
  "regex_search r [] = map_option groups (match_here False r [])"
| "regex_search r (c # cs) =
     (case match_here False r (c # cs) of
        Some m \<Rightarrow> Some (groups m)
      | None \<Rightarrow> regex_search r cs)"

definition lits :: "string \<Rightarrow> item list" where
  "lits s = map (\<lambda>c. One (Lit c)) s"

section \<open>Shape model\<close>

text \<open>
  \<open>PrimitiveType\<close> is an unscoped enumeration with the values 0 to 12.
  \<open>PrimitiveTypeFromString\<close> casts the position of the token in \<open>primitive_strings\<close> to
  the enumeration, and that position is 13 when the token is not in the table:
  \<open>PT13\<close> is the value \<open>static_cast<PrimitiveType>(13)\<close>, which no enumerator names.
\<close>

datatype PrimitiveType =
  S16 | S32 | S64 | U8 | U16 | U32 | U64 | F16 | BF16 | F32 | F64 | C64 | C128 | PT13

definition primitive_strings :: "string list" where
  "primitive_strings =
     [''s16'', ''s32'', ''s64'', ''u8'', ''u16'', ''u32'', ''u64'', ''f16'', ''bf16'', ''f32'',
      ''f64'', ''c64'', ''c128'']"

definition enumerators :: "PrimitiveType list" where
  "enumerators = [S16, S32, S64, U8, U16, U32, U64, F16, BF16, F32, F64, C64, C128]"

fun enum_value :: "PrimitiveType \<Rightarrow> nat" where
  "enum_value S16 = 0"
| "enum_value S32 = 1"
| "enum_value S64 = 2"
| "enum_value U8 = 3"
| "enum_value U16 = 4"
| "enum_value U32 = 5"
| "enum_value U64 = 6"
| "enum_value F16 = 7"
| "enum_value BF16 = 8"
| "enum_value F32 = 9"
| "enum_value F64 = 10"
| "enum_value C64 = 11"
| "enum_value C128 = 12"
| "enum_value PT13 = 13"

definition enum_cast :: "nat \<Rightarrow> PrimitiveType" where
  "enum_cast n = (if n < 13 then enumerators ! n else PT13)"

text \<open>\<open>primitive_strings()[type]\<close>: a read past the end of the vector for the value 13.\<close>

definition ToString :: "PrimitiveType \<Rightarrow> failure + string" where
  "ToString type =
     (if enum_value type < length primitive_strings
      then Inr (primitive_strings ! enum_value type)
      else Inl (Undefined ''primitive_strings()[13]''))"

text \<open>\<open>std::distance(vec.begin(), std::find(vec.begin(), vec.end(), s))\<close>\<close>

fun find_index :: "string list \<Rightarrow> string \<Rightarrow> nat" where
  "find_index [] s = 0"
| "find_index (x # xs) s = (if x = s then 0 else Suc (find_index xs s))"

definition PrimitiveTypeFromString :: "string \<Rightarrow> PrimitiveType" where
  "PrimitiveTypeFromString s = enum_cast (find_index primitive_strings s)"

text \<open>\<open>s.substr(1, s.size())\<close> drops the first character; the rest goes to \<open>std::stoi\<close>.\<close>

definition ByteSize :: "PrimitiveType \<Rightarrow> failure + int" where
  "ByteSize type =
     bindE (ToString type) (\<lambda>s.
     bindE (stoi (drop 1 s)) (\<lambda>bits.
     Inr (bits div 8)))"

record ArrayShape =
  type :: PrimitiveType
  dimensions :: "int list"

record TupleShape =
  elements :: "ArrayShape list"

fun commas :: "string list \<Rightarrow> string" where
  "commas [] = []"
| "commas [x] = x"
| "commas (x # y # xs) = x @ '','' @ commas (y # xs)"

definition ArrayShapeToString :: "ArrayShape \<Rightarrow> failure + string" where
  "ArrayShapeToString shape =
     bindE (ToString (type shape)) (\<lambda>t.
     Inr (t @ ''['' @ commas (map to_string (dimensions shape)) @ '']''))"

text \<open>The pattern \<^verbatim>\<open>([^\[]+)\[(.*)\]\<close>.\<close>

definition shape_r :: "item list" where
  "shape_r =
     [Open, Plus (NotChar CHR ''[''), Close, One (Lit CHR ''[''),
      Open, Star Dot, Close, One (Lit CHR '']'')]"

fun stoi_all :: "string list \<Rightarrow> failure + int list" where
  "stoi_all [] = Inr []"
| "stoi_all (dim # rest) =
     bindE (stoi dim) (\<lambda>d.
     bindE (stoi_all rest) (\<lambda>ds.
     Inr (d # ds)))"

definition ArrayShapeFromString :: "string \<Rightarrow> failure + ArrayShape" where
  "ArrayShapeFromString s =
     bindE (Check (CHR ''('' \<notin> set s) ''Tuple shape is not supported'') (\<lambda>_.
     case regex_match shape_r s of
       None \<Rightarrow> ExitWithMsg ''Shape not found''
     | Some match \<Rightarrow>
         (let type = match ! 0;
              dims = match ! 1;
              ptype = PrimitiveTypeFromString type
          in bindE (stoi_all (getline_all CHR '','' dims)) (\<lambda>dimensions.
             Inr \<lparr>type = ptype, dimensions = dimensions\<rparr>)))"

text \<open>
  In the loop of \<open>TupleShapeFromString\<close>, \<open>subshape[subshape.size() - 1]\<close> reads outside
  the string when the token is empty.
\<close>

fun subshapes :: "string list \<Rightarrow> failure + ArrayShape list" where
  "subshapes [] = Inr []"
| "subshapes (subshape # rest) =
     (if subshape = [] then Inl (Undefined ''subshape[subshape.size() - 1]'')
      else bindE (ArrayShapeFromString
                    (if last subshape = CHR '','' then butlast subshape else subshape)) (\<lambda>a.
           bindE (subshapes rest) (\<lambda>out.
           Inr (a # out))))"

definition TupleShapeFromString :: "string \<Rightarrow> failure + TupleShape" where
  "TupleShapeFromString s =
     (if s = [] \<or> hd s \<noteq> CHR ''(''
      then bindE (ArrayShapeFromString s) (\<lambda>a. Inr \<lparr>elements = [a]\<rparr>)
      else bindE (subshapes (getline_all CHR '' '' (take (length s - 2) (drop 1 s)))) (\<lambda>out.
           Inr \<lparr>elements = out\<rparr>))"

fun ArrayShapesToStrings :: "ArrayShape list \<Rightarrow> failure + string list" where
  "ArrayShapesToStrings [] = Inr []"
| "ArrayShapesToStrings (a # rest) =
     bindE (ArrayShapeToString a) (\<lambda>x.
     bindE (ArrayShapesToStrings rest) (\<lambda>xs.
     Inr (x # xs)))"

fun comma_spaces :: "string list \<Rightarrow> string" where
  "comma_spaces [] = []"
| "comma_spaces [x] = x"
| "comma_spaces (x # y # xs) = x @ '', '' @ comma_spaces (y # xs)"

definition TupleShapeToString :: "TupleShape \<Rightarrow> failure + string" where
  "TupleShapeToString shape =
     (if length (elements shape) = 1 then ArrayShapeToString (elements shape ! 0)
      else bindE (ArrayShapesToStrings (elements shape)) (\<lambda>xs.
           Inr (''('' @ comma_spaces xs @ '')'')))"

subsection \<open>The texts the array-shape pattern accepts\<close>

text \<open>
  A description of the language of \<open>shape_r\<close> that does not run the matcher: a non-empty
  type token without \<open>[\<close>, then \<open>[\<close>, then any text without a line terminator, then a
  final \<open>]\<close>.  The dimension tokens are the pieces of the text between the first \<open>[\<close> and
  the final \<open>]\<close> that \<open>std::getline\<close> cuts at the commas.
\<close>

definition type_token :: "string \<Rightarrow> string" where
  "type_token s = takeWhile (\<lambda>c. c \<noteq> CHR ''['') s"

definition dims_text :: "string \<Rightarrow> string" where
  "dims_text s = butlast (drop 1 (dropWhile (\<lambda>c. c \<noteq> CHR ''['') s))"

definition bracket_form :: "string \<Rightarrow> bool" where
  "bracket_form s =
     (type_token s \<noteq> [] \<and> 2 \<le> length (dropWhile (\<lambda>c. c \<noteq> CHR ''['') s) \<and>
      last s = CHR '']'' \<and> list_all (accepts Dot) (dims_text s))"

definition dimension_tokens :: "string \<Rightarrow> string list" where
  "dimension_tokens s = getline_all CHR '','' (dims_text s)"

definition stoi_fails :: "string \<Rightarrow> bool" where
  "stoi_fails tok = (case stoi tok of Inl _ \<Rightarrow> True | Inr _ \<Rightarrow> False)"

fun leading_int :: "string \<Rightarrow> int" where
  "leading_int tok = (case stoi tok of Inr v \<Rightarrow> v | Inl _ \<Rightarrow> 0)"

subsection \<open>The grammar of shape texts\<close>

text \<open>
  The texts of the grammar \<open>TYPE "[" DIM ("," DIM)* "]"\<close>, built from a type token and
  the list of dimension tokens, and the tuple texts built from array texts separated by a
  comma and a space.  \<open>dim_token\<close> is a non-negative decimal integer as a text;
  \<open>canonical_dim\<close> also asks that it is written without leading zeros and fits \<open>int\<close>.
\<close>

definition dim_token :: "string \<Rightarrow> bool" where
  "dim_token tok = (tok \<noteq> [] \<and> list_all is_digit tok)"

definition canonical_dim :: "string \<Rightarrow> bool" where
  "canonical_dim tok =
     (dim_token tok \<and> (tok = ''0'' \<or> hd tok \<noteq> CHR ''0'') \<and> int (digits_val tok) \<le> INT_MAX)"

definition array_text :: "string \<Rightarrow> string list \<Rightarrow> string" where
  "array_text t toks = t @ ''['' @ commas toks @ '']''"

definition tuple_text :: "string list \<Rightarrow> string" where
  "tuple_text texts = ''('' @ comma_spaces texts @ '')''"

definition wf_array_text :: "string \<Rightarrow> bool" where
  "wf_array_text s =
     (\<exists>t toks. s = array_text t toks \<and> t \<in> set primitive_strings \<and> list_all canonical_dim toks)"

section \<open>Assignment parser\<close>

record BufferAssignment =
  buffers_size :: "int list"
  buffers_shape :: "int \<rightharpoonup> TupleShape"
  params_idx :: "int list"
  output_idx :: int

definition new_assignment :: BufferAssignment where
  "new_assignment =
     \<lparr>buffers_size = [], buffers_shape = Map.empty, params_idx = [], output_idx = - 1\<rparr>"

text \<open>The pattern \<^verbatim>\<open>allocation ([0-9]): .+, size ([0-9]+), (.+)\<close>.\<close>

definition allocation_line_r :: "item list" where
  "allocation_line_r =
     lits ''allocation '' @ [Open, One Digit, Close] @ lits '': '' @ [Plus Dot] @
     lits '', size '' @ [Open, Plus Digit, Close] @ lits '', '' @ [Open, Plus Dot, Close]"

text \<open>The pattern \<^verbatim>\<open>output shape is \|([^\|]+)\|,\<close>.\<close>

definition output_r :: "item list" where
  "output_r =
     lits ''output shape is |'' @ [Open, Plus (NotChar CHR ''|''), Close] @ lits ''|,''"

text \<open>The pattern \<^verbatim>\<open>parameter ([0-9]+), shape \|([^\|]+)\|\<close>.\<close>

definition parameter_r :: "item list" where
  "parameter_r =
     lits ''parameter '' @ [Open, Plus Digit, Close] @ lits '', shape |'' @
     [Open, Plus (NotChar CHR ''|''), Close] @ lits ''|''"

text \<open>The two searches in the rest of an allocation line, in the order of the source.\<close>

definition parse_output :: "BufferAssignment \<Rightarrow> int \<Rightarrow> string \<Rightarrow> failure + BufferAssignment" where
  "parse_output assignment allocation_idx postfix =
     (case regex_search output_r postfix of
        None \<Rightarrow> Inr assignment
      | Some output_match \<Rightarrow>
          bindE (Check (output_idx assignment = - 1) ''Multiple out-parameters'') (\<lambda>_.
          bindE (TupleShapeFromString (output_match ! 0)) (\<lambda>shape.
          bindE (Log_arg (TupleShapeToString shape)) (\<lambda>_.
          Inr (assignment
                 \<lparr>output_idx := allocation_idx,
                  buffers_shape := (buffers_shape assignment)(allocation_idx \<mapsto> shape)\<rparr>)))))"

definition parse_parameter :: "BufferAssignment \<Rightarrow> int \<Rightarrow> string \<Rightarrow> failure + BufferAssignment" where
  "parse_parameter assignment allocation_idx postfix =
     (case regex_search parameter_r postfix of
        None \<Rightarrow> Inr assignment
      | Some param_match \<Rightarrow>
          bindE (stoi (param_match ! 0)) (\<lambda>param_idx.
          bindE (TupleShapeFromString (param_match ! 1)) (\<lambda>shape.
          bindE (Log_arg (TupleShapeToString shape)) (\<lambda>_.
          Inr (assignment
                 \<lparr>params_idx := params_idx assignment @ [param_idx],
                  buffers_shape := (buffers_shape assignment)(allocation_idx \<mapsto> shape)\<rparr>)))))"

text \<open>The body of the \<open>while (std::getline(infile, line))\<close> loop.\<close>

definition parse_line :: "BufferAssignment \<Rightarrow> string \<Rightarrow> failure + BufferAssignment" where
  "parse_line assignment line =
     (case regex_search allocation_line_r line of
        None \<Rightarrow> Inr assignment
      | Some match \<Rightarrow>
          bindE (stoi (match ! 0)) (\<lambda>allocation_idx.
          bindE (stoi (match ! 1)) (\<lambda>size.
          bindE (Check (allocation_idx = int (length (buffers_size assignment)))
                   ''Unordered allocations in input'') (\<lambda>_.
          bindE (parse_output (assignment\<lparr>buffers_size := buffers_size assignment @ [size]\<rparr>)
                   allocation_idx (match ! 2)) (\<lambda>assignment1.
          parse_parameter assignment1 allocation_idx (match ! 2))))))"

fun parse_lines :: "BufferAssignment \<Rightarrow> string list \<Rightarrow> failure + BufferAssignment" where
  "parse_lines assignment [] = Inr assignment"
| "parse_lines assignment (line # rest) =
     bindE (parse_line assignment line) (\<lambda>assignment1. parse_lines assignment1 rest)"

text \<open>The argument is the list of the lines of the file (no line when it cannot be read).\<close>

definition ParseBufferAssignment :: "string list \<Rightarrow> failure + BufferAssignment" where
  "ParseBufferAssignment lines =
     bindE (parse_lines new_assignment lines) (\<lambda>assignment.
     bindE (Check (output_idx assignment \<noteq> - 1) ''Output not set'') (\<lambda>_.
     Inr assignment))"

text \<open>
  The part of the invariant of the data model that the parser keeps: the output index, once
  set, and every key of \<open>buffers_shape\<close> are indices into \<open>buffers_size\<close>, and the output
  index has a shape.
\<close>

definition indices_valid :: "BufferAssignment \<Rightarrow> bool" where
  "indices_valid a =
     ((output_idx a = - 1 \<or>
       (0 \<le> output_idx a \<and> nat (output_idx a) < length (buffers_size a) \<and>
        output_idx a \<in> dom (buffers_shape a))) \<and>
      (\<forall>k\<in>dom (buffers_shape a). 0 \<le> k \<and> nat k < length (buffers_size a)))"

section \<open>Buffers, generation and display\<close>

text \<open>
  Memory is an array of bytes indexed by address.  A buffer is the address that \<open>malloc\<close>
  returned; \<open>static_cast<T*>(buffer)[i]\<close> is the object of type \<open>T\<close> at
  \<open>buffer + i * sizeof(T)\<close>, stored least significant byte first.  An integral object is
  modelled by its value, a \<open>float\<close> or \<open>double\<close> object by its bit pattern read as an
  unsigned number (floating-point arithmetic is not modelled).
\<close>

type_synonym byte = "8 word"

type_synonym memory = "nat \<Rightarrow> byte"

datatype ctype =
    c_short | c_int | c_long_long
  | c_unsigned_char | c_unsigned_short | c_unsigned_int | c_unsigned_long_long
  | c_float | c_double

fun sizeof :: "ctype \<Rightarrow> nat" where
  "sizeof c_short = 2"
| "sizeof c_int = 4"
| "sizeof c_long_long = 8"
| "sizeof c_unsigned_char = 1"
| "sizeof c_unsigned_short = 2"
| "sizeof c_unsigned_int = 4"
| "sizeof c_unsigned_long_long = 8"
| "sizeof c_float = 4"
| "sizeof c_double = 8"

fun is_signed :: "ctype \<Rightarrow> bool" where
  "is_signed c_short = True"
| "is_signed c_int = True"
| "is_signed c_long_long = True"
| "is_signed _ = False"

text \<open>Conversion of an integer to the integral type \<open>T\<close>: the value modulo \<open>2^bits\<close>.\<close>

definition convert :: "ctype \<Rightarrow> int \<Rightarrow> int" where
  "convert T v =
     (let m = 2 ^ (8 * sizeof T)
      in if is_signed T then (v + m div 2) mod m - m div 2 else v mod m)"

definition to_bytes :: "nat \<Rightarrow> int \<Rightarrow> byte list" where
  "to_bytes w v = map (\<lambda>k. word_of_int (v div 256 ^ k)) [0..<w]"

definition from_bytes :: "byte list \<Rightarrow> int" where
  "from_bytes bs = foldr (\<lambda>b acc. uint b + 256 * acc) bs 0"

fun write_bytes :: "memory \<Rightarrow> nat \<Rightarrow> byte list \<Rightarrow> memory" where
  "write_bytes mem a [] = mem"
| "write_bytes mem a (b # bs) = write_bytes (mem(a := b)) (Suc a) bs"

definition read_bytes :: "memory \<Rightarrow> nat \<Rightarrow> nat \<Rightarrow> byte list" where
  "read_bytes mem a n = map (\<lambda>k. mem (a + k)) [0..<n]"

definition store :: "ctype \<Rightarrow> memory \<Rightarrow> nat \<Rightarrow> int \<Rightarrow> memory" where
  "store T mem a v = write_bytes mem a (to_bytes (sizeof T) v)"

definition load :: "ctype \<Rightarrow> memory \<Rightarrow> nat \<Rightarrow> int" where
  "load T mem a = convert T (from_bytes (read_bytes mem a (sizeof T)))"

text \<open>
  The parts of the C++ library whose results the standard leaves to the implementation, or
  that work on floating-point numbers, are parameters of the model: the engine
  \<open>std::mt19937\<close> with its state \<open>'g\<close>, a call \<open>distr(generator)\<close> of
  \<open>std::uniform_int_distribution<T>(a, b)\<close> and of \<open>std::uniform_real_distribution<T>(a, b)\<close>
  (it returns the number drawn and the new state of the engine), and \<open>operator<<\<close> for
  \<open>float\<close> and \<open>double\<close>.
\<close>

record 'g stdlib =
  mt19937 :: "int \<Rightarrow> 'g"
  uniform_int_distribution :: "ctype \<Rightarrow> int \<Rightarrow> int \<Rightarrow> 'g \<Rightarrow> int \<times> 'g"
  uniform_real_distribution :: "ctype \<Rightarrow> int \<Rightarrow> int \<Rightarrow> 'g \<Rightarrow> int \<times> 'g"
  print_real :: "ctype \<Rightarrow> int \<Rightarrow> string"

definition kSeed :: int where
  "kSeed = 42"

definition kUpperBound :: int where
  "kUpperBound = 100"

definition kLowerBound :: int where
  "kLowerBound = - 100"

definition GetNumElements :: "ArrayShape \<Rightarrow> int" where
  "GetNumElements shape =
     foldl (\<lambda>num_elements dim. wrap32 (num_elements * dim)) 1 (dimensions shape)"

text \<open>
  The loop \<open>for (int i = 0; i < num_elements; i++) casted[i] = distr(generator);\<close>, with
  the number of iterations that remain as the argument of the recursion.
\<close>

fun fill_loop ::
  "('g \<Rightarrow> int \<times> 'g) \<Rightarrow> ctype \<Rightarrow> nat \<Rightarrow> nat \<Rightarrow> nat \<Rightarrow> 'g \<Rightarrow> memory \<Rightarrow> memory" where
  "fill_loop distr T casted 0 i generator mem = mem"
| "fill_loop distr T casted (Suc remaining) i generator mem =
     (case distr generator of
        (v, generator') \<Rightarrow>
          fill_loop distr T casted remaining (Suc i) generator'
            (store T mem (casted + i * sizeof T) v))"

definition FillIntT :: "'g stdlib \<Rightarrow> ctype \<Rightarrow> memory \<Rightarrow> nat \<Rightarrow> int \<Rightarrow> memory" where
  "FillIntT lib T mem buffer num_elements =
     (let generator = mt19937 lib kSeed;
          distr = uniform_int_distribution lib T (convert T kLowerBound) (convert T kUpperBound)
      in fill_loop distr T buffer (nat num_elements) 0 generator mem)"

definition FillFloatT :: "'g stdlib \<Rightarrow> ctype \<Rightarrow> memory \<Rightarrow> nat \<Rightarrow> int \<Rightarrow> memory" where
  "FillFloatT lib T mem buffer num_elements =
     (let generator = mt19937 lib kSeed;
          distr = uniform_real_distribution lib T kLowerBound kUpperBound
      in fill_loop distr T buffer (nat num_elements) 0 generator mem)"

definition Unsupported :: "PrimitiveType \<Rightarrow> failure + 'a" where
  "Unsupported ptype = bindE (ToString ptype) (\<lambda>t. ExitWithMsg (''Unsupported type: '' @ t))"

text \<open>For the value 13 no case of the \<open>switch\<close> applies and the function returns.\<close>

definition Fill :: "'g stdlib \<Rightarrow> memory \<Rightarrow> nat \<Rightarrow> ArrayShape \<Rightarrow> failure + memory" where
  "Fill lib mem buffer shape =
     (let num_elements = GetNumElements shape
      in bindE (Log_arg (ToString (type shape))) (\<lambda>_.
         case type shape of
           S16 \<Rightarrow> Inr (FillIntT lib c_short mem buffer num_elements)
         | S32 \<Rightarrow> Inr (FillIntT lib c_int mem buffer num_elements)
         | S64 \<Rightarrow> Inr (FillIntT lib c_long_long mem buffer num_elements)
         | U8 \<Rightarrow> Inr (FillIntT lib c_unsigned_char mem buffer num_elements)
         | U16 \<Rightarrow> Inr (FillIntT lib c_unsigned_short mem buffer num_elements)
         | U32 \<Rightarrow> Inr (FillIntT lib c_unsigned_int mem buffer num_elements)
         | U64 \<Rightarrow> Inr (FillIntT lib c_unsigned_long_long mem buffer num_elements)
         | F32 \<Rightarrow> Inr (FillFloatT lib c_float mem buffer num_elements)
         | F64 \<Rightarrow> Inr (FillFloatT lib c_double mem buffer num_elements)
         | F16 \<Rightarrow> Unsupported (type shape)
         | BF16 \<Rightarrow> Unsupported (type shape)
         | C64 \<Rightarrow> Unsupported (type shape)
         | C128 \<Rightarrow> Unsupported (type shape)
         | PT13 \<Rightarrow> Inr mem))"

subsection \<open>Standard output\<close>

text \<open>
  A step that prints returns the text it wrote to the standard output and its result; the
  text written before a failure stays written.
\<close>

type_synonym 'a io = "string \<times> (failure + 'a)"

definition endl :: string where
  "endl = [CHR 0x0A]"

definition cout :: "string \<Rightarrow> unit io" where
  "cout s = (s, Inr ())"

definition liftE :: "failure + 'a \<Rightarrow> 'a io" where
  "liftE r = ([], r)"

fun bindIO :: "'a io \<Rightarrow> ('a \<Rightarrow> 'b io) \<Rightarrow> 'b io" where
  "bindIO (out, Inl e) f = (out, Inl e)"
| "bindIO (out, Inr x) f = (case f x of (out', r) \<Rightarrow> (out @ out', r))"

text \<open>
  \<open>std::cout << casted[i]\<close>: a number in decimal, except that an \<open>unsigned char\<close> is
  written as the character with that code.
\<close>

definition print_value :: "'g stdlib \<Rightarrow> ctype \<Rightarrow> int \<Rightarrow> string" where
  "print_value lib T v =
     (case T of
        c_unsigned_char \<Rightarrow> [char_of (nat v)]
      | c_float \<Rightarrow> print_real lib T v
      | c_double \<Rightarrow> print_real lib T v
      | _ \<Rightarrow> to_string v)"

definition DisplayT :: "'g stdlib \<Rightarrow> ctype \<Rightarrow> memory \<Rightarrow> nat \<Rightarrow> int \<Rightarrow> string" where
  "DisplayT lib T mem buffer num_elements =
     comma_spaces
       (map (\<lambda>i. print_value lib T (load T mem (buffer + i * sizeof T))) [0..<nat num_elements])
     @ endl"

definition Display :: "'g stdlib \<Rightarrow> memory \<Rightarrow> nat \<Rightarrow> ArrayShape \<Rightarrow> unit io" where
  "Display lib mem buffer shape =
     (let num_elements = GetNumElements shape
      in case type shape of
           S16 \<Rightarrow> cout (DisplayT lib c_short mem buffer num_elements)
         | S32 \<Rightarrow> cout (DisplayT lib c_int mem buffer num_elements)
         | S64 \<Rightarrow> cout (DisplayT lib c_long_long mem buffer num_elements)
         | U8 \<Rightarrow> cout (DisplayT lib c_unsigned_char mem buffer num_elements)
         | U16 \<Rightarrow> cout (DisplayT lib c_unsigned_short mem buffer num_elements)
         | U32 \<Rightarrow> cout (DisplayT lib c_unsigned_int mem buffer num_elements)
         | U64 \<Rightarrow> cout (DisplayT lib c_unsigned_long_long mem buffer num_elements)
         | F32 \<Rightarrow> cout (DisplayT lib c_float mem buffer num_elements)
         | F64 \<Rightarrow> cout (DisplayT lib c_double mem buffer num_elements)
         | F16 \<Rightarrow> liftE (Unsupported (type shape))
         | BF16 \<Rightarrow> liftE (Unsupported (type shape))
         | C64 \<Rightarrow> liftE (Unsupported (type shape))
         | C128 \<Rightarrow> liftE (Unsupported (type shape))
         | PT13 \<Rightarrow> cout [])"

text \<open>
  The loop of \<open>Display(void*, TupleShape)\<close>: \<open>casted[tuple_idx]\<close> is the pointer stored at
  \<open>buffer + 8 * tuple_idx\<close>.
\<close>

fun display_elements :: "'g stdlib \<Rightarrow> memory \<Rightarrow> nat \<Rightarrow> ArrayShape list \<Rightarrow> nat \<Rightarrow> unit io" where
  "display_elements lib mem casted [] tuple_idx = cout []"
| "display_elements lib mem casted (array_shape # rest) tuple_idx =
     bindIO (Display lib mem (nat (from_bytes (read_bytes mem (casted + 8 * tuple_idx) 8)))
               array_shape) (\<lambda>_.
     bindIO (if rest \<noteq> [] then cout ('', '' @ endl) else cout []) (\<lambda>_.
     display_elements lib mem casted rest (Suc tuple_idx)))"

definition Display_tuple :: "'g stdlib \<Rightarrow> memory \<Rightarrow> nat \<Rightarrow> TupleShape \<Rightarrow> unit io" where
  "Display_tuple lib mem buffer shape =
     (if length (elements shape) = 1 then Display lib mem buffer (elements shape ! 0)
      else bindIO (cout (''('' @ endl)) (\<lambda>_.
           bindIO (display_elements lib mem buffer (elements shape) 0) (\<lambda>_.
           cout ('')'' @ endl))))"

section \<open>The driver\<close>

text \<open>
  What a run depends on besides the command line: whether \<open>VERBOSE\<close> is set, the lines of
  the files that can be read, the addresses \<open>malloc\<close> returns (by the number of the call and
  the size asked for), the memory at the start, the linked \<open>EntryModule\<close> (it gets the
  buffer table and may change the memory) and the library.
\<close>

record 'g environment =
  VERBOSE :: bool
  file_lines :: "string \<Rightarrow> string list"
  malloc :: "nat \<Rightarrow> int \<Rightarrow> nat"
  initial_memory :: memory
  EntryModule :: "nat list \<Rightarrow> memory \<Rightarrow> memory"
  library :: "'g stdlib"

definition IsVerbose :: "'g environment \<Rightarrow> bool" where
  "IsVerbose env = VERBOSE env"

definition kUsageString :: string where
  "kUsageString =
     endl @
     ''Driver for executing an HLO reproducer in object form in order to let OSS'' @ endl @
     ''users reproduce the miscompiles.'' @ endl @
     endl @
     ''Expected workflow:'' @ endl @
     endl @
     ''1) In the .hlo file, rename the root computation to `EntryModule`.'' @ endl @
     ''2) Run the .hlo file with XLA_FLAGS=--xla_dump_to set, to obtain the .ll file.'' @ endl @
     ''3) Compile and link this file with the object file from step (2).'' @ endl @
     ''4) Run the resulting file with the buffer assignment table as an argument,'' @ endl @
     ''taken from step 2. The driver will print the output to stderr.'' @ endl @
     ''5) Compare the output with optimized and non-optimized .ll file from step (2).'' @ endl @
     ''If the outputs differ, there is a miscompile.'' @ endl @
     endl @
     ''Run with an environment variable VERBOSE set to see logging.'' @ endl"

text \<open>The constructor of \<open>BufferTable\<close>: one \<open>malloc\<close> for each entry of \<open>buffers_size\<close>.\<close>

definition BufferTable :: "'g environment \<Rightarrow> BufferAssignment \<Rightarrow> nat list" where
  "BufferTable env assignment =
     map (\<lambda>buffer_idx. malloc env buffer_idx (buffers_size assignment ! buffer_idx))
       [0..<length (buffers_size assignment)]"

text \<open>\<open>operator[]\<close> of a vector or an array with an \<open>int\<close> index.\<close>

definition at_index :: "'a list \<Rightarrow> int \<Rightarrow> failure + 'a" where
  "at_index xs i =
     (if 0 \<le> i \<and> nat i < length xs then Inr (xs ! nat i)
      else Inl (Undefined ''operator[] out of range''))"

text \<open>\<open>operator[]\<close> of \<open>std::map\<close>: a key that is absent gets a tuple shape without elements.\<close>

definition shape_at :: "BufferAssignment \<Rightarrow> int \<Rightarrow> TupleShape" where
  "shape_at assignment idx =
     (case buffers_shape assignment idx of Some shape \<Rightarrow> shape | None \<Rightarrow> \<lparr>elements = []\<rparr>)"

text \<open>Division of \<open>int\<close> truncates towards zero.\<close>

definition trunc_div :: "int \<Rightarrow> int \<Rightarrow> int" where
  "trunc_div x y = (if (x < 0) = (y < 0) then \<bar>x\<bar> div \<bar>y\<bar> else - (\<bar>x\<bar> div \<bar>y\<bar>))"

text \<open>The two checks that \<open>main\<close> makes for a parameter before it fills the buffer.\<close>

definition check_parameter :: "BufferAssignment \<Rightarrow> int \<Rightarrow> failure + ArrayShape" where
  "check_parameter assignment param_idx =
     (let tuple_shape = shape_at assignment param_idx
      in bindE (Check (length (elements tuple_shape) = 1) ''Parameters can not be tuples'') (\<lambda>_.
         let shape = elements tuple_shape ! 0
         in bindE (ByteSize (type shape)) (\<lambda>byte_size.
            bindE (at_index (buffers_size assignment) param_idx) (\<lambda>buffer_size.
            bindE (Check (GetNumElements shape = trunc_div buffer_size byte_size)
                     ''Unexpected number of elements'') (\<lambda>_.
            Inr shape)))))"

definition fill_parameter ::
  "'g environment \<Rightarrow> BufferAssignment \<Rightarrow> nat list \<Rightarrow> memory \<Rightarrow> int \<Rightarrow> memory io" where
  "fill_parameter env assignment table mem param_idx =
     bindIO (liftE (check_parameter assignment param_idx)) (\<lambda>shape.
     bindIO (liftE (at_index table param_idx)) (\<lambda>buffer.
     bindIO (liftE (Fill (library env) mem buffer shape)) (\<lambda>mem1.
     bindIO (if IsVerbose env
             then bindIO (cout (''Filled parameter buffer for param '' @ to_string param_idx @
                                '': '' @ endl)) (\<lambda>_.
                  Display (library env) mem1 buffer shape)
             else cout []) (\<lambda>_.
     liftE (Inr mem1)))))"

fun fill_parameters ::
  "'g environment \<Rightarrow> BufferAssignment \<Rightarrow> nat list \<Rightarrow> int list \<Rightarrow> memory \<Rightarrow> memory io" where
  "fill_parameters env assignment table [] mem = liftE (Inr mem)"
| "fill_parameters env assignment table (param_idx # rest) mem =
     bindIO (fill_parameter env assignment table mem param_idx) (\<lambda>mem1.
     fill_parameters env assignment table rest mem1)"

text \<open>
  \<open>main\<close>, with \<open>argv[1]\<close>, \<open>argv[2]\<close>, ... as the list \<open>args\<close>.  The result is the text on the
  standard output and either the failure that ended the run or the return with status 0.
\<close>

definition main :: "'g environment \<Rightarrow> string list \<Rightarrow> unit io" where
  "main env args =
     (case args of
        [] \<Rightarrow>
          liftE (ExitWithMsg
            (''Please provide buffer table filename as an argument, '' @
             ''or invoke with --help for usage instructions.''))
      | arg # _ \<Rightarrow>
          if arg = ''--help'' then cout (kUsageString @ endl)
          else
            bindIO (liftE (ParseBufferAssignment (file_lines env arg))) (\<lambda>assignment.
            let table = BufferTable env assignment
            in bindIO (fill_parameters env assignment table (params_idx assignment)
                         (initial_memory env)) (\<lambda>mem.
               let mem1 = EntryModule env table mem
               in bindIO (cout (''Output:'' @ endl)) (\<lambda>_.
                  bindIO (liftE (Log_arg (TupleShapeToString
                                   (shape_at assignment (output_idx assignment))))) (\<lambda>_.
                  bindIO (liftE (at_index table (output_idx assignment))) (\<lambda>buffer.
                  Display_tuple (library env) mem1 buffer
                    (shape_at assignment (output_idx assignment))))))))"

subsection \<open>A sample library and environment\<close>

text \<open>
  One implementation of the library parameters, to run the model on concrete inputs: a
  small linear congruential engine in place of the Mersenne twister, an integer
  distribution that adds to the lower bound the state of the engine modulo the size of the
  range, and bit patterns of floating-point numbers printed as decimal numbers.  The size
  of the range is taken modulo \<open>2^bits\<close>, a choice of this sample for bounds that the
  standard does not allow (a lower bound above the upper bound); the numbers it draws are
  those of no C++ library.
\<close>

definition lcg_next :: "nat \<Rightarrow> nat" where
  "lcg_next g = (75 * g + 74) mod 65537"

definition sample_library :: "nat stdlib" where
  "sample_library =
     \<lparr>mt19937 = (\<lambda>seed. nat seed),
      uniform_int_distribution =
        (\<lambda>T a b g.
           (convert T (a + int (g mod (nat ((b - a) mod 2 ^ (8 * sizeof T)) + 1))), lcg_next g)),
      uniform_real_distribution = (\<lambda>T a b g. (int g, lcg_next g)),
      print_real = (\<lambda>T v. to_string v)\<rparr>"

definition sample_environment :: "bool \<Rightarrow> string list \<Rightarrow> nat environment" where
  "sample_environment verbose lines =
     \<lparr>VERBOSE = verbose,
      file_lines = (\<lambda>name. lines),
      malloc = (\<lambda>buffer_idx bytes. 4096 * (buffer_idx + 1)),
      initial_memory = (\<lambda>a. 0),
      EntryModule = (\<lambda>table mem. mem),
      library = sample_library\<rparr>"

subsection \<open>Notions used to state the properties of generation\<close>

text \<open>The element type that the \<open>switch\<close> of \<open>Fill\<close> and \<open>Display\<close> selects, where it selects one.\<close>

fun ctype_of :: "PrimitiveType \<Rightarrow> ctype option" where
  "ctype_of S16 = Some c_short"
| "ctype_of S32 = Some c_int"
| "ctype_of S64 = Some c_long_long"
| "ctype_of U8 = Some c_unsigned_char"
| "ctype_of U16 = Some c_unsigned_short"
| "ctype_of U32 = Some c_unsigned_int"
| "ctype_of U64 = Some c_unsigned_long_long"
| "ctype_of F32 = Some c_float"
| "ctype_of F64 = Some c_double"
| "ctype_of _ = None"

text \<open>The numbers that \<open>n\<close> successive calls \<open>distr(generator)\<close> return.\<close>

fun draws :: "('g \<Rightarrow> int \<times> 'g) \<Rightarrow> nat \<Rightarrow> 'g \<Rightarrow> int list" where
  "draws distr 0 generator = []"
| "draws distr (Suc n) generator =
     (case distr generator of (v, generator') \<Rightarrow> v # draws distr n generator')"

text \<open>The distribution object that \<open>FillIntT<T>\<close> and \<open>FillFloatT<T>\<close> construct.\<close>

definition distribution :: "'g stdlib \<Rightarrow> ctype \<Rightarrow> 'g \<Rightarrow> int \<times> 'g" where
  "distribution lib T =
     (if T = c_float \<or> T = c_double then uniform_real_distribution lib T kLowerBound kUpperBound
      else uniform_int_distribution lib T (convert T kLowerBound) (convert T kUpperBound))"

text \<open>The bytes that a fill writes: the objects drawn, one after the other.\<close>

definition fill_image :: "('g \<Rightarrow> int \<times> 'g) \<Rightarrow> ctype \<Rightarrow> nat \<Rightarrow> 'g \<Rightarrow> byte list" where
  "fill_image distr T n generator = concat (map (to_bytes (sizeof T)) (draws distr n generator))"

subsection \<open>The text printed for the parameters when \<open>VERBOSE\<close> is set\<close>

text \<open>
  For one parameter: the line that names it, then the elements of its buffer, read with the
  element type of the shape and separated by a comma and a space, and the end of the line.
\<close>

definition parameter_dump :: "'g stdlib \<Rightarrow> memory \<Rightarrow> nat \<Rightarrow> ArrayShape \<Rightarrow> int \<Rightarrow> string" where
  "parameter_dump lib mem buffer shape param_idx =
     ''Filled parameter buffer for param '' @ to_string param_idx @ '': '' @ endl @
     (case ctype_of (type shape) of
        Some T \<Rightarrow> DisplayT lib T mem buffer (GetNumElements shape)
      | None \<Rightarrow> [])"

text \<open>
  For the list of parameters: the dump of each parameter that passes the checks and is
  filled, with the memory as it is after that fill, up to the first step that fails.
\<close>

fun parameter_dumps ::
  "'g environment \<Rightarrow> BufferAssignment \<Rightarrow> nat list \<Rightarrow> int list \<Rightarrow> memory \<Rightarrow> string" where
  "parameter_dumps env assignment table [] mem = []"
| "parameter_dumps env assignment table (param_idx # rest) mem =
     (case check_parameter assignment param_idx of
        Inl _ \<Rightarrow> []
      | Inr shape \<Rightarrow>
          (case at_index table param_idx of
             Inl _ \<Rightarrow> []
           | Inr buffer \<Rightarrow>
               (case Fill (library env) mem buffer shape of
                  Inl _ \<Rightarrow> []
                | Inr mem1 \<Rightarrow>
                    parameter_dump (library env) mem1 buffer shape param_idx @
                    parameter_dumps env assignment table rest mem1)))"

text \<open>For a run: the dumps of the parameters of the assignment file, when it parses.\<close>

definition verbose_text :: "'g environment \<Rightarrow> string list \<Rightarrow> string" where
  "verbose_text env args =
     (case args of
        [] \<Rightarrow> []
      | arg # _ \<Rightarrow>
          if arg = ''--help'' then []
          else (case ParseBufferAssignment (file_lines env arg) of
                  Inl _ \<Rightarrow> []
                | Inr assignment \<Rightarrow>
                    parameter_dumps env assignment (BufferTable env assignment)
                      (params_idx assignment) (initial_memory env)))"

section \<open>Properties\<close>

subsection \<open>Evaluation of the model on concrete inputs\<close>

lemmas run_defs =
  ExitWithMsg_def Check_def Log_arg_def INT_MAX_def INT_MIN_def is_digit_def isspace_def
  digit_val_def digits_val_def stoi_def Let_def regex_match_def lits_def
  primitive_strings_def enumerators_def enum_cast_def ToString_def PrimitiveTypeFromString_def
  ArrayShapeToString_def shape_r_def ArrayShapeFromString_def TupleShapeFromString_def
  TupleShapeToString_def new_assignment_def allocation_line_r_def output_r_def parameter_r_def
  parse_output_def parse_parameter_def parse_line_def ParseBufferAssignment_def
  getline_all.simps to_string_def dec.simps digit_char_def

subsection \<open>The assignment parser\<close>

text \<open>
  C4 (the code departs from the claim).  The claim: after a successful parse every index
  stored in \<open>params_idx\<close> is a valid index into \<open>buffers_size\<close> and has an entry in
  \<open>buffers_shape\<close>.  The parser stores the number that follows the word \<open>parameter\<close>,
  not the index of the allocation that carries the marker: for an output in allocation 0
  and parameter 3 in allocation 1 the parse succeeds with \<open>params_idx = [3]\<close>, while
  \<open>buffers_size\<close> has two entries and \<open>buffers_shape\<close> has none for 3.
\<close>

theorem params_idx_stores_parameter_number:
  "\<exists>a. ParseBufferAssignment
          [''allocation 0: 0x1, size 4, output shape is |f32[]|,'',
           ''allocation 1: 0x2, size 4, parameter 3, shape |f32[]|''] = Inr a
       \<and> params_idx a = [3]
       \<and> length (buffers_size a) = 2
       \<and> buffers_shape a 3 = None
       \<and> dom (buffers_shape a) = {1, 0}
       \<and> output_idx a = 0"
  by (simp add: run_defs)

text \<open>
  C5 (the code departs from the claim).  The claim: no line of the form
  \<open>allocation <idx>: ..., size <bytes>, <rest>\<close> is skipped, for any decimal \<open>idx\<close>.
  The pattern of the parser takes one digit for the index (\<open>([0-9])\<close>, where the size and
  the parameter number have \<open>([0-9]+)\<close>), so the header of allocation 10 does not match
  and the line leaves the assignment as it was, whatever it was.
\<close>

theorem allocation_10_is_skipped:
  "regex_search allocation_line_r
     ''allocation 10: 0x27017c46b9c0, size 4, thread-local:'' = None
   \<and> parse_line a ''allocation 10: 0x27017c46b9c0, size 4, thread-local:'' = Inr a
   \<and> ParseBufferAssignment
       [''allocation 10: 0x27017c46b9c0, size 4, output shape is |f32[]|,''] =
       Inl (Exit ''Output not set'')"
  by (simp add: run_defs)

text \<open>
  The rest of the invariant holds after every successful parse: the output index is set, it
  and every key of \<open>buffers_shape\<close> are valid indices, and the output has a shape.
\<close>

lemma bindE_eq_Inr: "(bindE m f = Inr y) = (\<exists>x. m = Inr x \<and> f x = Inr y)"
  by (cases m) auto

lemma parse_output_valid:
  assumes "indices_valid a" "0 \<le> idx" "nat idx < length (buffers_size a)"
    and "parse_output a idx postfix = Inr a'"
  shows "indices_valid a'" "buffers_size a' = buffers_size a"
  using assms
  by (auto simp: parse_output_def indices_valid_def Check_def ExitWithMsg_def Log_arg_def
      bindE_eq_Inr split: option.splits if_splits)

lemma parse_parameter_valid:
  assumes "indices_valid a" "0 \<le> idx" "nat idx < length (buffers_size a)"
    and "parse_parameter a idx postfix = Inr a'"
  shows "indices_valid a'"
  using assms
  by (auto simp: parse_parameter_def indices_valid_def Log_arg_def bindE_eq_Inr
      split: option.splits if_splits)

lemma indices_valid_grow:
  "indices_valid a \<Longrightarrow> indices_valid (a\<lparr>buffers_size := buffers_size a @ [bytes]\<rparr>)"
  by (fastforce simp: indices_valid_def less_Suc_eq)

lemma parse_line_valid:
  assumes "indices_valid a" "parse_line a line = Inr a'"
  shows "indices_valid a'"
proof (cases "regex_search allocation_line_r line")
  case None
  with assms show ?thesis by (simp add: parse_line_def)
next
  case (Some match)
  with assms(2) obtain idx bytes a1 where
    idx: "idx = int (length (buffers_size a))"
    and a1: "parse_output (a\<lparr>buffers_size := buffers_size a @ [bytes]\<rparr>) idx (match ! 2) = Inr a1"
    and a': "parse_parameter a1 idx (match ! 2) = Inr a'"
    by (auto simp: parse_line_def Check_def ExitWithMsg_def bindE_eq_Inr split: if_splits)
  let ?a0 = "a\<lparr>buffers_size := buffers_size a @ [bytes]\<rparr>"
  have v0: "indices_valid ?a0" using assms(1) by (rule indices_valid_grow)
  have i0: "0 \<le> idx" "nat idx < length (buffers_size ?a0)" by (simp_all add: idx)
  from parse_output_valid [OF v0 i0 a1] have v1: "indices_valid a1"
    and s1: "buffers_size a1 = buffers_size ?a0" by simp_all
  from i0 s1 have i1: "nat idx < length (buffers_size a1)" by simp
  from parse_parameter_valid [OF v1 i0(1) i1 a'] show ?thesis .
qed

lemma parse_lines_valid:
  "indices_valid a \<Longrightarrow> parse_lines a lines = Inr a' \<Longrightarrow> indices_valid a'"
proof (induction lines arbitrary: a)
  case Nil
  then show ?case by simp
next
  case (Cons line lines)
  from Cons.prems(2) obtain a1 where "parse_line a line = Inr a1" "parse_lines a1 lines = Inr a'"
    by (cases "parse_line a line") auto
  with Cons.IH parse_line_valid [OF Cons.prems(1)] show ?case by blast
qed

lemma output_idx_is_valid:
  assumes "ParseBufferAssignment lines = Inr a"
  shows "0 \<le> output_idx a \<and> nat (output_idx a) < length (buffers_size a) \<and>
         output_idx a \<in> dom (buffers_shape a) \<and>
         (\<forall>k\<in>dom (buffers_shape a). 0 \<le> k \<and> nat k < length (buffers_size a))"
proof -
  from assms have p: "parse_lines new_assignment lines = Inr a" and o: "output_idx a \<noteq> - 1"
    by (auto simp: ParseBufferAssignment_def Check_def ExitWithMsg_def bindE_eq_Inr
        split: if_splits)
  have "indices_valid new_assignment" by (simp add: indices_valid_def new_assignment_def)
  from parse_lines_valid [OF this p] o show ?thesis by (simp add: indices_valid_def)
qed

subsection \<open>The array-shape pattern\<close>

lemma star_sound:
  "match_here full (Star a # r) s = Some m \<Longrightarrow>
   \<exists>u v. s = u @ v \<and> list_all (accepts a) u \<and> match_here full r v = Some m"
proof (induction s)
  case Nil
  then show ?case by auto
next
  case (Cons c cs)
  show ?case
  proof (cases "accepts a c \<and> match_here full (Star a # r) cs \<noteq> None")
    case True
    with Cons.prems have "match_here full (Star a # r) cs = Some m" by auto
    from Cons.IH [OF this] obtain u v where
      "cs = u @ v" "list_all (accepts a) u" "match_here full r v = Some m" by blast
    with True have "c # cs = (c # u) @ v \<and> list_all (accepts a) (c # u) \<and> match_here full r v = Some m"
      by simp
    then show ?thesis by blast
  next
    case False
    with Cons.prems have "match_here full r (c # cs) = Some m"
      by (auto split: if_splits option.splits)
    then have "c # cs = [] @ (c # cs) \<and> list_all (accepts a) [] \<and> match_here full r (c # cs) = Some m"
      by simp
    then show ?thesis by blast
  qed
qed

lemma star_notchar_stop:
  "list_all (\<lambda>c. c \<noteq> x) t \<Longrightarrow>
   match_here full (Star (NotChar x) # Close # One (Lit x) # r) (t @ x # rest) =
   map_option (Cons (x # rest)) (match_here full r rest)"
  by (induction t) (auto split: option.splits)

lemma star_dot_to_end:
  "list_all (accepts Dot) d \<Longrightarrow>
   match_here True [Star Dot, Close, One (Lit x)] (d @ [x]) = Some [[x], []]"
  by (induction d) (auto split: option.splits)

lemma shape_r_complete:
  assumes "t \<noteq> []" "list_all (\<lambda>c. c \<noteq> CHR ''['') t" "list_all (accepts Dot) d"
  shows "regex_match shape_r (t @ ''['' @ d @ '']'') = Some [t, d]"
proof -
  from assms(1) obtain c t' where t: "t = c # t'" by (cases t) auto
  with assms(2) have c: "c \<noteq> CHR ''[''" and t': "list_all (\<lambda>c. c \<noteq> CHR ''['') t'" by auto
  have "match_here True [Open, Star Dot, Close, One (Lit CHR '']'')] (d @ '']'')
        = Some [d @ '']'', '']'', []]"
    using star_dot_to_end [OF assms(3), of "CHR '']''"] by simp
  then have "match_here True shape_r (t @ ''['' @ d @ '']'')
        = Some [t @ ''['' @ d @ '']'', ''['' @ d @ '']'', d @ '']'', '']'', []]"
    using star_notchar_stop [OF t', of True "[Open, Star Dot, Close, One (Lit CHR '']'')]" "d @ '']''"] c
    by (simp add: shape_r_def t)
  then show ?thesis by (simp add: regex_match_def)
qed

lemma shape_r_sound:
  assumes "regex_match shape_r s = Some g"
  shows "\<exists>t d. s = t @ ''['' @ d @ '']'' \<and> t \<noteq> [] \<and> list_all (\<lambda>c. c \<noteq> CHR ''['') t
            \<and> list_all (accepts Dot) d"
proof -
  from assms obtain m where m: "match_here True shape_r s = Some m"
    by (auto simp: regex_match_def)
  then obtain m1 where m1: "match_here True (Plus (NotChar CHR ''['') # Close # One (Lit CHR ''['') #
        [Open, Star Dot, Close, One (Lit CHR '']'')]) s = Some m1"
    by (auto simp: shape_r_def)
  then obtain c cs where s: "s = c # cs" and c: "c \<noteq> CHR ''[''"
    and m2: "match_here True (Star (NotChar CHR ''['') # Close # One (Lit CHR ''['') #
        [Open, Star Dot, Close, One (Lit CHR '']'')]) cs = Some m1"
    by (cases s) (auto split: if_splits)
  from star_sound [OF m2] obtain u v where cs: "cs = u @ v"
    and u: "list_all (accepts (NotChar CHR ''['')) u"
    and m3: "match_here True (Close # One (Lit CHR ''['') #
        [Open, Star Dot, Close, One (Lit CHR '']'')]) v = Some m1" by blast
  from m3 obtain v' m4 where v: "v = CHR ''['' # v'"
    and m4: "match_here True (Star Dot # [Close, One (Lit CHR '']'')]) v' = Some m4"
    by (cases v) (auto split: if_splits)
  from star_sound [OF m4] obtain u2 v2 where v': "v' = u2 @ v2"
    and u2: "list_all (accepts Dot) u2"
    and m5: "match_here True [Close, One (Lit CHR '']'')] v2 = Some m4" by blast
  from m5 have v2: "v2 = '']''"
    by (cases v2) (auto split: if_splits)
  have "s = (c # u) @ ''['' @ u2 @ '']''" by (simp add: s cs v v' v2)
  moreover have "list_all (\<lambda>c. c \<noteq> CHR ''['') (c # u)" using c u by (simp add: list_all_iff)
  ultimately show ?thesis using u2 by blast
qed


lemma bracket_form_split:
  assumes "t \<noteq> []" "list_all (\<lambda>c. c \<noteq> CHR ''['') t"
  shows "type_token (t @ ''['' @ d @ '']'') = t" "dims_text (t @ ''['' @ d @ '']'') = d"
proof -
  have a: "\<And>x. x \<in> set t \<Longrightarrow> x \<noteq> CHR ''[''" using assms(2) by (simp add: list_all_iff)
  show "type_token (t @ ''['' @ d @ '']'') = t"
    unfolding type_token_def using takeWhile_append2 [of t "\<lambda>c. c \<noteq> CHR ''[''" "''['' @ d @ '']''"] a
    by simp
  show "dims_text (t @ ''['' @ d @ '']'') = d"
    unfolding dims_text_def using dropWhile_append2 [of t "\<lambda>c. c \<noteq> CHR ''[''" "''['' @ d @ '']''"] a
    by (simp add: butlast_append)
qed

lemma bracket_form_intro:
  assumes "t \<noteq> []" "list_all (\<lambda>c. c \<noteq> CHR ''['') t" "list_all (accepts Dot) d"
  shows "bracket_form (t @ ''['' @ d @ '']'')"
proof -
  have a: "\<And>x. x \<in> set t \<Longrightarrow> x \<noteq> CHR ''[''" using assms(2) by (simp add: list_all_iff)
  have "dropWhile (\<lambda>c. c \<noteq> CHR ''['') (t @ ''['' @ d @ '']'') = ''['' @ d @ '']''"
    using dropWhile_append2 [of t "\<lambda>c. c \<noteq> CHR ''[''" "''['' @ d @ '']''"] a by simp
  then show ?thesis
    using assms bracket_form_split [OF assms(1,2), of d]
    by (simp add: bracket_form_def)
qed

lemma bracket_form_elim:
  assumes "bracket_form s"
  shows "s = type_token s @ ''['' @ dims_text s @ '']'' \<and> type_token s \<noteq> [] \<and>
         list_all (\<lambda>c. c \<noteq> CHR ''['') (type_token s) \<and> list_all (accepts Dot) (dims_text s)"
proof -
  let ?P = "\<lambda>c. c \<noteq> CHR ''[''"
  let ?r = "dropWhile ?P s"
  from assms have r2: "2 \<le> length ?r" and l: "last s = CHR '']''"
    and t: "type_token s \<noteq> []" and d: "list_all (accepts Dot) (dims_text s)"
    by (auto simp: bracket_form_def)
  have rne: "?r \<noteq> []"
  proof
    assume "?r = []"
    then have "length ?r = 0" by (simp only: list.size)
    with r2 show False by linarith
  qed
  then have "\<not> ?P (hd ?r)" by (rule hd_dropWhile)
  with rne obtain r' where r: "?r = CHR ''['' # r'" by (cases ?r) auto
  with r2 have r'ne: "r' \<noteq> []" by auto
  have s: "s = takeWhile ?P s @ ?r" by simp
  have "last s = last ?r" using rne s by (metis last_appendR)
  with r r'ne l have "last r' = CHR '']''" by simp
  with r'ne have r': "r' = butlast r' @ '']''" by (metis append_butlast_last_id)
  have "dims_text s = butlast r'" by (simp add: dims_text_def r)
  with r' r s have "s = type_token s @ ''['' @ dims_text s @ '']''"
    by (simp add: type_token_def)
  moreover have "list_all ?P (type_token s)"
    unfolding type_token_def list_all_iff using set_takeWhileD by fastforce
  ultimately show ?thesis using t d by blast
qed

lemma shape_r_language:
  "regex_match shape_r s = (if bracket_form s then Some [type_token s, dims_text s] else None)"
proof (cases "bracket_form s")
  case True
  from bracket_form_elim [OF True] shape_r_complete [of "type_token s" "dims_text s"] True
  show ?thesis by simp
next
  case False
  have "regex_match shape_r s = None"
  proof (cases "regex_match shape_r s")
    case None
    then show ?thesis .
  next
    case (Some g)
    from shape_r_sound [OF Some] bracket_form_intro False show ?thesis by blast
  qed
  with False show ?thesis by simp
qed

lemma stoi_all_fails:
  "\<exists>tok\<in>set toks. stoi_fails tok \<Longrightarrow> \<exists>e. stoi_all toks = Inl (Uncaught e)"
proof (induction toks)
  case Nil
  then show ?case by simp
next
  case (Cons tok toks)
  show ?case
  proof (cases "stoi tok")
    case (Inl f)
    then obtain e where "f = Uncaught e"
      by (auto simp: stoi_def Let_def split: if_splits)
    with Inl show ?thesis by simp
  next
    case (Inr v)
    with Cons.prems have "\<exists>tok\<in>set toks. stoi_fails tok" by (auto simp: stoi_fails_def)
    from Cons.IH [OF this] Inr show ?thesis by auto
  qed
qed

lemma stoi_all_succeeds:
  "\<forall>tok\<in>set toks. \<not> stoi_fails tok \<Longrightarrow> stoi_all toks = Inr (map leading_int toks)"
  by (induction toks) (auto simp: stoi_fails_def split: sum.splits)

subsection \<open>Parsing an array shape\<close>

text \<open>
  C3 (as amended).  \<open>ArrayShapeFromString\<close> ends the run with the diagnostic
  \<open>Tuple shape is not supported\<close> when the text contains \<open>(\<close>, and with \<open>Shape not found\<close>
  when the text as a whole is not a type token followed by a bracketed part.  For a text of
  that form, a dimension token on which \<open>std::stoi\<close> throws (no digit after optional white
  space and one sign, or a number outside \<open>int\<close>) ends the run with the uncaught exception;
  when \<open>std::stoi\<close> throws on no token and the type token is one of the thirteen, a shape
  is returned whose dimensions are the leading integers of the tokens, whatever follows the
  digits of a token.
\<close>

theorem ArrayShapeFromString_outcomes:
  "(CHR ''('' \<in> set s \<longrightarrow>
      ArrayShapeFromString s = Inl (Exit ''Tuple shape is not supported''))
   \<and> (CHR ''('' \<notin> set s \<and> \<not> bracket_form s \<longrightarrow>
      ArrayShapeFromString s = Inl (Exit ''Shape not found''))
   \<and> (CHR ''('' \<notin> set s \<and> bracket_form s \<and> (\<exists>tok\<in>set (dimension_tokens s). stoi_fails tok) \<longrightarrow>
      (\<exists>e. ArrayShapeFromString s = Inl (Uncaught e)))
   \<and> (CHR ''('' \<notin> set s \<and> bracket_form s \<and> type_token s \<in> set primitive_strings \<and>
      (\<forall>tok\<in>set (dimension_tokens s). \<not> stoi_fails tok) \<longrightarrow>
      ArrayShapeFromString s =
        Inr \<lparr>type = PrimitiveTypeFromString (type_token s),
             dimensions = map leading_int (dimension_tokens s)\<rparr>)"
proof (intro conjI impI)
  assume "CHR ''('' \<in> set s"
  then show "ArrayShapeFromString s = Inl (Exit ''Tuple shape is not supported'')"
    by (simp add: ArrayShapeFromString_def Check_def ExitWithMsg_def)
next
  assume "CHR ''('' \<notin> set s \<and> \<not> bracket_form s"
  then show "ArrayShapeFromString s = Inl (Exit ''Shape not found'')"
    by (simp add: ArrayShapeFromString_def Check_def ExitWithMsg_def shape_r_language)
next
  assume a: "CHR ''('' \<notin> set s \<and> bracket_form s \<and> (\<exists>tok\<in>set (dimension_tokens s). stoi_fails tok)"
  then obtain e where "stoi_all (getline_all CHR '','' (dims_text s)) = Inl (Uncaught e)"
    using stoi_all_fails [of "dimension_tokens s"] by (auto simp: dimension_tokens_def)
  with a show "\<exists>e. ArrayShapeFromString s = Inl (Uncaught e)"
    by (simp add: ArrayShapeFromString_def Check_def shape_r_language)
next
  assume a: "CHR ''('' \<notin> set s \<and> bracket_form s \<and> type_token s \<in> set primitive_strings \<and>
      (\<forall>tok\<in>set (dimension_tokens s). \<not> stoi_fails tok)"
  then have "stoi_all (getline_all CHR '','' (dims_text s)) = Inr (map leading_int (dimension_tokens s))"
    using stoi_all_succeeds [of "dimension_tokens s"] by (auto simp: dimension_tokens_def)
  with a show "ArrayShapeFromString s =
        Inr \<lparr>type = PrimitiveTypeFromString (type_token s),
             dimensions = map leading_int (dimension_tokens s)\<rparr>"
    by (simp add: ArrayShapeFromString_def Check_def shape_r_language dimension_tokens_def)
qed

lemmas form_defs =
  type_token_def dims_text_def bracket_form_def dimension_tokens_def stoi_fails_def

theorem ArrayShapeFromString_outcomes_witness:
  "ArrayShapeFromString ''(f32[2])'' = Inl (Exit ''Tuple shape is not supported'')
   \<and> ArrayShapeFromString ''f32[2'' = Inl (Exit ''Shape not found'')
   \<and> (\<exists>e. ArrayShapeFromString ''f32[2,a]'' = Inl (Uncaught e))
   \<and> ArrayShapeFromString ''f32[256,32]'' = Inr \<lparr>type = F32, dimensions = [256, 32]\<rparr>"
proof -
  have h1: "CHR ''('' \<in> set ''(f32[2])''" by simp
  have h2: "CHR ''('' \<notin> set ''f32[2'' \<and> \<not> bracket_form ''f32[2''"
    by (simp add: form_defs)
  have h3: "CHR ''('' \<notin> set ''f32[2,a]'' \<and> bracket_form ''f32[2,a]'' \<and>
            (\<exists>tok\<in>set (dimension_tokens ''f32[2,a]''). stoi_fails tok)"
    by (simp add: form_defs run_defs)
  have h4: "CHR ''('' \<notin> set ''f32[256,32]'' \<and> bracket_form ''f32[256,32]'' \<and>
            type_token ''f32[256,32]'' \<in> set primitive_strings \<and>
            (\<forall>tok\<in>set (dimension_tokens ''f32[256,32]''). \<not> stoi_fails tok)"
    by (simp add: form_defs run_defs)
  have v4: "PrimitiveTypeFromString (type_token ''f32[256,32]'') = F32
            \<and> map leading_int (dimension_tokens ''f32[256,32]'') = [256, 32]"
    by (simp add: form_defs run_defs)
  from h1 ArrayShapeFromString_outcomes [of "''(f32[2])''"]
  have c1: "ArrayShapeFromString ''(f32[2])'' = Inl (Exit ''Tuple shape is not supported'')"
    by blast
  from h2 ArrayShapeFromString_outcomes [of "''f32[2''"]
  have c2: "ArrayShapeFromString ''f32[2'' = Inl (Exit ''Shape not found'')"
    by blast
  from h3 ArrayShapeFromString_outcomes [of "''f32[2,a]''"]
  have c3: "\<exists>e. ArrayShapeFromString ''f32[2,a]'' = Inl (Uncaught e)"
    by blast
  from h4 ArrayShapeFromString_outcomes [of "''f32[256,32]''"]
  have "ArrayShapeFromString ''f32[256,32]'' =
        Inr \<lparr>type = PrimitiveTypeFromString (type_token ''f32[256,32]''),
             dimensions = map leading_int (dimension_tokens ''f32[256,32]'')\<rparr>"
    by blast
  with v4 have c4: "ArrayShapeFromString ''f32[256,32]'' = Inr \<lparr>type = F32, dimensions = [256, 32]\<rparr>"
    by simp
  from c1 c2 c3 c4 show ?thesis by blast
qed

text \<open>
  The claim as stated fails: \<open>2x\<close> is not a valid integer, and the text is parsed as \<open>f32[2]\<close>.
\<close>

theorem dimension_with_trailing_text_accepted:
  "\<not> list_all is_digit ''2x''
   \<and> ArrayShapeFromString ''f32[2x]'' = Inr \<lparr>type = F32, dimensions = [2]\<rparr>"
  by (simp add: run_defs)

text \<open>
  A type token outside the table is not rejected either: \<open>std::find\<close> returns the end of the
  table and the position 13 is cast to the enumeration.
\<close>

lemma unknown_type_token_not_rejected:
  "''x32'' \<notin> set primitive_strings
   \<and> ArrayShapeFromString ''x32[2]'' = Inr \<lparr>type = PT13, dimensions = [2]\<rparr>"
  by (simp add: run_defs)

subsection \<open>A line with both markers\<close>




subsection \<open>Decimal numerals, token lists and the texts of the grammar\<close>

lemma digit_facts:
  assumes "is_digit c"
  shows "digit_val c < 10" "digit_char (digit_val c) = c" "c \<noteq> CHR ''0'' \<Longrightarrow> 0 < digit_val c"
    "\<not> isspace c" "c \<noteq> CHR ''-''" "c \<noteq> CHR ''+''" "c \<noteq> CHR '',''" "c \<noteq> CHR '' ''"
    "c \<noteq> CHR ''(''" "accepts Dot c" "c \<noteq> CHR ''[''"
  using assms by (auto simp: is_digit_def digit_val_def digit_char_def isspace_def)

lemma digits_val_snoc: "digits_val (ds @ [c]) = 10 * digits_val ds + digit_val c"
  by (simp add: digits_val_def)

lemma foldl_digits_mono: "acc \<le> foldl (\<lambda>acc c. 10 * acc + digit_val c) acc ds"
proof (induction ds arbitrary: acc)
  case Nil
  show ?case by simp
next
  case (Cons c ds)
  have "acc \<le> 10 * acc + digit_val c" by simp
  also have "\<dots> \<le> foldl (\<lambda>acc c. 10 * acc + digit_val c) (10 * acc + digit_val c) ds"
    by (rule Cons.IH)
  finally show ?case by simp
qed

lemma digits_val_pos:
  assumes "ds \<noteq> []" "is_digit (hd ds)" "hd ds \<noteq> CHR ''0''"
  shows "0 < digits_val ds"
proof -
  from assms(1) obtain c cs where ds: "ds = c # cs" by (cases ds) auto
  with assms have "0 < digit_val c" by (simp add: digit_facts)
  also have "digit_val c \<le> foldl (\<lambda>acc c. 10 * acc + digit_val c) (digit_val c) cs"
    by (rule foldl_digits_mono)
  finally show ?thesis by (simp add: ds digits_val_def)
qed

lemma dec_digits_val:
  "ds \<noteq> [] \<Longrightarrow> list_all is_digit ds \<Longrightarrow> ds = ''0'' \<or> hd ds \<noteq> CHR ''0'' \<Longrightarrow>
   dec (digits_val ds) = ds"
proof (induction ds rule: rev_induct)
  case Nil
  then show ?case by simp
next
  case (snoc c ds)
  from snoc.prems have c: "is_digit c" by simp
  show ?case
  proof (cases "ds = []")
    case True
    with c show ?thesis
      by (simp add: digits_val_def dec.simps [of "digit_val c"] digit_facts)
  next
    case False
    with snoc.prems have h: "hd ds \<noteq> CHR ''0''" and d: "list_all is_digit ds" by auto
    from False d have "is_digit (hd ds)" by (cases ds) auto
    with False h have pos: "0 < digits_val ds" by (simp add: digits_val_pos)
    from snoc.IH [OF False d] h have ih: "dec (digits_val ds) = ds" by simp
    have lt: "digit_val c < 10" using c by (rule digit_facts)
    from pos have "\<not> 10 * digits_val ds + digit_val c < 10" by simp
    then have "dec (10 * digits_val ds + digit_val c) =
          dec ((10 * digits_val ds + digit_val c) div 10) @
          [digit_char ((10 * digits_val ds + digit_val c) mod 10)]"
      by (subst dec.simps) simp
    with lt ih c show ?thesis by (simp add: digits_val_snoc digit_facts)
  qed
qed

lemma stoi_digits:
  assumes "dim_token tok" "int (digits_val tok) \<le> INT_MAX"
  shows "stoi tok = Inr (int (digits_val tok))"
proof -
  from assms(1) obtain c cs where tok: "tok = c # cs" and c: "is_digit c"
    and all: "list_all is_digit tok"
    by (cases tok) (auto simp: dim_token_def)
  have tw: "takeWhile is_digit cs = cs"
    using all by (simp add: tok list_all_iff takeWhile_eq_all_conv)
  have "INT_MIN \<le> int (digits_val tok)" by (simp add: INT_MIN_def)
  with assms(2) c show ?thesis
    unfolding stoi_def tok Let_def by (simp add: digit_facts tw)
qed

lemma roundtrip_dim:
  assumes "canonical_dim tok"
  shows "stoi tok = Inr (int (digits_val tok))" "to_string (int (digits_val tok)) = tok"
proof -
  from assms show "stoi tok = Inr (int (digits_val tok))"
    by (simp add: canonical_dim_def stoi_digits)
  from assms have "dec (digits_val tok) = tok"
    by (simp add: canonical_dim_def dim_token_def dec_digits_val)
  then show "to_string (int (digits_val tok)) = tok" by (simp add: to_string_def)
qed


lemma getline_all_step:
  assumes "d \<notin> set x"
  shows "getline_all d (x @ d # rest) = x # getline_all d rest"
proof -
  have a: "\<And>c. c \<in> set x \<Longrightarrow> c \<noteq> d" using assms by auto
  have "takeWhile (\<lambda>c. c \<noteq> d) (x @ d # rest) = x"
    using takeWhile_append2 [of x "\<lambda>c. c \<noteq> d" "d # rest"] a by simp
  moreover have "dropWhile (\<lambda>c. c \<noteq> d) (x @ d # rest) = d # rest"
    using dropWhile_append2 [of x "\<lambda>c. c \<noteq> d" "d # rest"] a by simp
  ultimately show ?thesis
    by (subst getline_all.simps) simp
qed

lemma getline_all_last:
  assumes "d \<notin> set x" "x \<noteq> []"
  shows "getline_all d x = [x]"
proof -
  have a: "\<And>c. c \<in> set x \<Longrightarrow> c \<noteq> d" using assms by auto
  then have tw: "takeWhile (\<lambda>c. c \<noteq> d) x = x" and dw: "dropWhile (\<lambda>c. c \<noteq> d) x = []"
    by (simp_all add: takeWhile_eq_all_conv)
  have "getline_all d x = takeWhile (\<lambda>c. c \<noteq> d) x #
        getline_all d (drop 1 (dropWhile (\<lambda>c. c \<noteq> d) x))"
    using assms(2) by (subst getline_all.simps) simp
  also have "\<dots> = x # getline_all d []" by (simp only: tw dw drop_Nil)
  also have "\<dots> = [x]" by (simp add: getline_all.simps [of d "[]"])
  finally show ?thesis .
qed

lemma getline_all_commas:
  "list_all (\<lambda>tok. tok \<noteq> [] \<and> CHR '','' \<notin> set tok) toks \<Longrightarrow>
   getline_all CHR '','' (commas toks) = toks"
proof (induction toks rule: commas.induct)
  case 1
  show ?case by (simp add: getline_all.simps)
next
  case (2 x)
  then show ?case by (simp add: getline_all_last)
next
  case (3 x y xs)
  then show ?case by (simp add: getline_all_step)
qed

lemma canonical_dim_chars:
  assumes "canonical_dim tok"
  shows "tok \<noteq> []" "list_all is_digit tok"
  using assms by (auto simp: canonical_dim_def dim_token_def)

lemma commas_chars:
  "list_all (list_all P) toks \<Longrightarrow> P CHR '','' \<Longrightarrow> list_all P (commas toks)"
  by (induction toks rule: commas.induct) auto

lemma stoi_all_canonical:
  "list_all canonical_dim toks \<Longrightarrow> stoi_all toks = Inr (map (\<lambda>tok. int (digits_val tok)) toks)"
  by (induction toks) (auto simp: roundtrip_dim)

lemma to_string_canonical:
  "list_all canonical_dim toks \<Longrightarrow> map to_string (map (\<lambda>tok. int (digits_val tok)) toks) = toks"
  by (induction toks) (auto simp: roundtrip_dim)

lemma type_token_facts:
  assumes "t \<in> set primitive_strings"
  shows "t \<noteq> []" "list_all (\<lambda>c. c \<noteq> CHR ''['') t" "CHR ''('' \<notin> set t" "CHR '' '' \<notin> set t"
    "ToString (PrimitiveTypeFromString t) = Inr t"
  using assms
  by (auto simp: primitive_strings_def PrimitiveTypeFromString_def ToString_def enum_cast_def
      enumerators_def)

lemma dims_chars:
  assumes "list_all canonical_dim toks"
  shows "list_all (accepts Dot) (commas toks)" "CHR ''('' \<notin> set (commas toks)"
    "CHR '' '' \<notin> set (commas toks)"
proof -
  let ?P = "\<lambda>c. is_digit c \<or> c = CHR '',''"
  from assms have "list_all (list_all ?P) toks"
    by (induction toks) (auto simp: canonical_dim_def dim_token_def list_all_iff)
  then have a: "list_all ?P (commas toks)" by (rule commas_chars) simp
  have "\<And>c. ?P c \<Longrightarrow> accepts Dot c \<and> c \<noteq> CHR ''('' \<and> c \<noteq> CHR '' ''"
    by (auto simp: is_digit_def)
  with a show "list_all (accepts Dot) (commas toks)" "CHR ''('' \<notin> set (commas toks)"
    "CHR '' '' \<notin> set (commas toks)"
    by (auto simp: list_all_iff)
qed

lemma parse_array_text:
  assumes "t \<in> set primitive_strings" "list_all canonical_dim toks"
  shows "ArrayShapeFromString (array_text t toks) =
         Inr \<lparr>type = PrimitiveTypeFromString t,
              dimensions = map (\<lambda>tok. int (digits_val tok)) toks\<rparr>"
proof -
  have no_paren: "CHR ''('' \<notin> set (array_text t toks)"
    using type_token_facts(3) [OF assms(1)] dims_chars(2) [OF assms(2)]
    by (simp add: array_text_def)
  have m: "regex_match shape_r (array_text t toks) = Some [t, commas toks]"
    unfolding array_text_def
    by (rule shape_r_complete [OF type_token_facts(1,2) [OF assms(1)] dims_chars(1) [OF assms(2)]])
  have "\<And>tok. canonical_dim tok \<Longrightarrow> tok \<noteq> [] \<and> CHR '','' \<notin> set tok"
    using digit_facts(7) by (auto simp: canonical_dim_def dim_token_def list_all_iff)
  with assms(2) have "list_all (\<lambda>tok. tok \<noteq> [] \<and> CHR '','' \<notin> set tok) toks"
    by (simp add: list_all_iff)
  then have g: "getline_all CHR '','' (commas toks) = toks" by (rule getline_all_commas)
  show ?thesis
    using no_paren by (simp add: ArrayShapeFromString_def Check_def m g stoi_all_canonical [OF assms(2)])
qed

lemma print_parsed_array:
  assumes "t \<in> set primitive_strings" "list_all canonical_dim toks"
  shows "ArrayShapeToString \<lparr>type = PrimitiveTypeFromString t,
              dimensions = map (\<lambda>tok. int (digits_val tok)) toks\<rparr> = Inr (array_text t toks)"
  using type_token_facts(5) [OF assms(1)] to_string_canonical [OF assms(2)]
  by (simp add: ArrayShapeToString_def array_text_def)


lemma wf_array_text_parse:
  assumes "wf_array_text s"
  shows "\<exists>a. ArrayShapeFromString s = Inr a \<and> ArrayShapeToString a = Inr s"
proof -
  from assms obtain t toks where "s = array_text t toks" "t \<in> set primitive_strings"
    "list_all canonical_dim toks"
    by (auto simp: wf_array_text_def)
  then show ?thesis using parse_array_text print_parsed_array by blast
qed

lemma wf_array_text_chars:
  assumes "wf_array_text s"
  shows "s \<noteq> []" "last s = CHR '']''" "CHR '' '' \<notin> set s"
proof -
  from assms obtain t toks where s: "s = array_text t toks" and t: "t \<in> set primitive_strings"
    and d: "list_all canonical_dim toks"
    by (auto simp: wf_array_text_def)
  show "s \<noteq> []" "last s = CHR '']''" by (simp_all add: s array_text_def)
  show "CHR '' '' \<notin> set s"
    using type_token_facts(4) [OF t] dims_chars(3) [OF d] by (simp add: s array_text_def)
qed

lemma subshapes_texts:
  "texts \<noteq> [] \<Longrightarrow> list_all wf_array_text texts \<Longrightarrow>
   \<exists>out. subshapes (getline_all CHR '' '' (comma_spaces texts)) = Inr out \<and>
         ArrayShapesToStrings out = Inr texts \<and> length out = length texts"
proof (induction texts rule: comma_spaces.induct)
  case 1
  then show ?case by simp
next
  case (2 x)
  then have x: "wf_array_text x" by simp
  from wf_array_text_parse [OF x] obtain a where
    a: "ArrayShapeFromString x = Inr a" "ArrayShapeToString a = Inr x" by blast
  have "getline_all CHR '' '' x = [x]"
    using wf_array_text_chars [OF x] by (simp add: getline_all_last)
  with a wf_array_text_chars [OF x] show ?case by simp
next
  case (3 x y xs)
  then have x: "wf_array_text x" and rest: "list_all wf_array_text (y # xs)" by simp_all
  from wf_array_text_parse [OF x] obtain a where
    a: "ArrayShapeFromString x = Inr a" "ArrayShapeToString a = Inr x" by blast
  from "3.IH" rest obtain out where
    out: "subshapes (getline_all CHR '' '' (comma_spaces (y # xs))) = Inr out"
      "ArrayShapesToStrings out = Inr (y # xs)" "length out = length (y # xs)"
    by auto
  have "CHR '' '' \<notin> set (x @ '','')" using wf_array_text_chars(3) [OF x] by simp
  from getline_all_step [OF this, of "comma_spaces (y # xs)"]
  have "getline_all CHR '' '' (comma_spaces (x # y # xs)) =
        (x @ '','') # getline_all CHR '' '' (comma_spaces (y # xs))"
    by simp
  with a out show ?case by simp
qed

lemma parse_tuple_text:
  assumes "list_all wf_array_text texts"
  shows "\<exists>out. TupleShapeFromString (tuple_text texts) = Inr \<lparr>elements = out\<rparr> \<and>
         ArrayShapesToStrings out = Inr texts \<and> length out = length texts"
proof -
  have inner: "take (length (tuple_text texts) - 2) (drop 1 (tuple_text texts)) = comma_spaces texts"
    by (simp add: tuple_text_def)
  show ?thesis
  proof (cases "texts = []")
    case True
    then show ?thesis
      by (simp add: TupleShapeFromString_def tuple_text_def getline_all.simps [of _ "[]"])
  next
    case False
    from subshapes_texts [OF False assms] obtain out where
      "subshapes (getline_all CHR '' '' (comma_spaces texts)) = Inr out"
      "ArrayShapesToStrings out = Inr texts" "length out = length texts" by blast
    then show ?thesis
      unfolding TupleShapeFromString_def inner by (simp add: tuple_text_def)
  qed
qed

lemma print_single:
  assumes "ArrayShapesToStrings out = Inr texts" "length out = 1"
  shows "ArrayShapeToString (out ! 0) = Inr (hd texts)"
proof -
  from assms(2) obtain a where "out = [a]" by (cases out) auto
  with assms(1) show ?thesis by (cases "ArrayShapeToString a") auto
qed

subsection \<open>Round trip of shape texts\<close>

text \<open>
  C8 (as amended).  For every array-shape text of the grammar whose dimension tokens are
  written without leading zeros and fit \<open>int\<close>, printing the parsed shape gives the text
  back.  For every tuple text \<open>(A1, ..., An)\<close> of such array texts, printing the parsed
  tuple gives the text back when \<open>n\<close> is not 1, and gives the bare array text \<open>A1\<close>
  when \<open>n = 1\<close>.
\<close>

theorem shape_text_round_trip:
  "(wf_array_text s \<longrightarrow> bindE (ArrayShapeFromString s) ArrayShapeToString = Inr s)
   \<and> (list_all wf_array_text texts \<longrightarrow>
        bindE (TupleShapeFromString (tuple_text texts)) TupleShapeToString =
        Inr (if length texts = 1 then hd texts else tuple_text texts))"
proof (intro conjI impI)
  assume "wf_array_text s"
  from wf_array_text_parse [OF this]
  show "bindE (ArrayShapeFromString s) ArrayShapeToString = Inr s" by auto
next
  assume "list_all wf_array_text texts"
  from parse_tuple_text [OF this] obtain out where
    p: "TupleShapeFromString (tuple_text texts) = Inr \<lparr>elements = out\<rparr>"
    and q: "ArrayShapesToStrings out = Inr texts" and l: "length out = length texts" by blast
  show "bindE (TupleShapeFromString (tuple_text texts)) TupleShapeToString =
        Inr (if length texts = 1 then hd texts else tuple_text texts)"
  proof (cases "length texts = 1")
    case True
    with l print_single [OF q] p show ?thesis by (simp add: TupleShapeToString_def)
  next
    case False
    with l p q show ?thesis by (simp add: TupleShapeToString_def tuple_text_def)
  qed
qed


theorem shape_text_round_trip_witness:
  "bindE (ArrayShapeFromString ''f32[256,32]'') ArrayShapeToString = Inr ''f32[256,32]''
   \<and> bindE (TupleShapeFromString ''(f32[10,20], u32[])'') TupleShapeToString =
       Inr ''(f32[10,20], u32[])''
   \<and> bindE (TupleShapeFromString ''(s64[7])'') TupleShapeToString = Inr ''s64[7]''"
proof -
  have w1: "wf_array_text ''f32[256,32]''"
    unfolding wf_array_text_def
    by (intro exI [of _ "''f32''"] exI [of _ "[''256'', ''32'']"])
      (simp add: array_text_def canonical_dim_def dim_token_def run_defs)
  have w2: "wf_array_text ''f32[10,20]''"
    unfolding wf_array_text_def
    by (intro exI [of _ "''f32''"] exI [of _ "[''10'', ''20'']"])
      (simp add: array_text_def canonical_dim_def dim_token_def run_defs)
  have w3: "wf_array_text ''u32[]''"
    unfolding wf_array_text_def
    by (intro exI [of _ "''u32''"] exI [of _ "[]"])
      (simp add: array_text_def canonical_dim_def dim_token_def run_defs)
  have w4: "wf_array_text ''s64[7]''"
    unfolding wf_array_text_def
    by (intro exI [of _ "''s64''"] exI [of _ "[''7'']"])
      (simp add: array_text_def canonical_dim_def dim_token_def run_defs)
  from w2 w3 have l2: "list_all wf_array_text [''f32[10,20]'', ''u32[]'']" by simp
  from w4 have l3: "list_all wf_array_text [''s64[7]'']" by simp
  from w1 l2 shape_text_round_trip [of "''f32[256,32]''" "[''f32[10,20]'', ''u32[]'']"]
  have c12: "bindE (ArrayShapeFromString ''f32[256,32]'') ArrayShapeToString = Inr ''f32[256,32]''
       \<and> bindE (TupleShapeFromString ''(f32[10,20], u32[])'') TupleShapeToString =
           Inr ''(f32[10,20], u32[])''"
    by (simp add: tuple_text_def)
  from l3 shape_text_round_trip [of "''s64[7]''" "[''s64[7]'']"]
  have c3: "bindE (TupleShapeFromString ''(s64[7])'') TupleShapeToString = Inr ''s64[7]''"
    by (simp add: tuple_text_def)
  from c12 c3 show ?thesis by blast
qed

text \<open>
  The claim as stated fails for dimension tokens of the grammar that are not of this kind:
  a dimension above the largest \<open>int\<close> ends the run in \<open>std::stoi\<close>, and a dimension with a
  leading zero is printed without it.
\<close>

theorem large_or_padded_dimension_no_round_trip:
  "dim_token ''2147483648''
   \<and> ArrayShapeFromString ''f32[2147483648]'' = Inl (Uncaught ''std::out_of_range: stoi'')
   \<and> bindE (ArrayShapeFromString ''f32[2147483648]'') ArrayShapeToString \<noteq>
       Inr ''f32[2147483648]''
   \<and> dim_token ''02''
   \<and> bindE (ArrayShapeFromString ''f32[02]'') ArrayShapeToString = Inr ''f32[2]''
   \<and> bindE (ArrayShapeFromString ''f32[02]'') ArrayShapeToString \<noteq> Inr ''f32[02]''"
  by (simp add: dim_token_def run_defs)

subsection \<open>Memory and the fill loop\<close>

lemma fill_loop_numeral:
  "fill_loop distr T casted (numeral n) i generator mem =
     (case distr generator of
        (v, generator') \<Rightarrow>
          fill_loop distr T casted (pred_numeral n) (Suc i) generator'
            (store T mem (casted + i * sizeof T) v))"
  by (simp add: numeral_eq_Suc)

lemmas mem_defs =
  kSeed_def kLowerBound_def kUpperBound_def GetNumElements_def wrap32_def convert_def
  to_bytes_def from_bytes_def read_bytes_def store_def load_def FillIntT_def FillFloatT_def
  Fill_def Unsupported_def endl_def cout_def liftE_def print_value_def DisplayT_def Display_def
  Display_tuple_def lcg_next_def sample_library_def fill_loop_numeral
  upt_rec [of 0] upt_rec [of "Suc n" for n]

lemma write_bytes_at:
  "write_bytes mem a bs x = (if a \<le> x \<and> x < a + length bs then bs ! (x - a) else mem x)"
proof (induction bs arbitrary: mem a)
  case Nil
  show ?case by auto
next
  case (Cons b bs)
  show ?case
    using Cons.IH [of "mem(a := b)" "Suc a"]
    by (auto simp: nth_Cons' Suc_diff_le fun_upd_def)
qed

lemma read_after_write: "read_bytes (write_bytes mem a bs) a (length bs) = bs"
  by (rule nth_equalityI) (simp_all add: read_bytes_def write_bytes_at)

lemma read_outside_write:
  "a + n \<le> b \<or> b + length bs \<le> a \<Longrightarrow> read_bytes (write_bytes mem b bs) a n = read_bytes mem a n"
  by (auto simp: read_bytes_def write_bytes_at)

lemma write_bytes_append:
  "write_bytes mem a (xs @ ys) = write_bytes (write_bytes mem a xs) (a + length xs) ys"
  by (induction xs arbitrary: mem a) simp_all

lemma length_to_bytes: "length (to_bytes w v) = w"
  by (simp add: to_bytes_def)

lemma length_fill_image: "length (fill_image distr T n generator) = n * sizeof T"
proof (induction n arbitrary: generator)
  case 0
  show ?case by (simp add: fill_image_def)
next
  case (Suc n)
  obtain v g' where d: "distr generator = (v, g')" by (cases "distr generator")
  from Suc [of g'] show ?case by (simp add: fill_image_def d length_to_bytes)
qed

lemma fill_loop_image:
  "fill_loop distr T casted n i generator mem =
   write_bytes mem (casted + i * sizeof T) (fill_image distr T n generator)"
proof (induction n arbitrary: i generator mem)
  case 0
  show ?case by (simp add: fill_image_def)
next
  case (Suc n)
  obtain v g' where d: "distr generator = (v, g')" by (cases "distr generator")
  have "fill_image distr T (Suc n) generator = to_bytes (sizeof T) v @ fill_image distr T n g'"
    by (simp add: fill_image_def d)
  then show ?case
    by (simp add: d Suc store_def write_bytes_append length_to_bytes ac_simps)
qed

lemma Fill_supported:
  assumes "ctype_of (type shape) = Some T"
  shows "Fill lib mem buffer shape =
         Inr (write_bytes mem buffer
                (fill_image (distribution lib T) T (nat (GetNumElements shape)) (mt19937 lib kSeed)))"
  using assms
  by (cases "type shape")
    (simp_all add: Fill_def Log_arg_def ToString_def primitive_strings_def FillIntT_def
      FillFloatT_def fill_loop_image distribution_def Let_def)


subsection \<open>Generation\<close>

text \<open>
  C6.  For a shape with a supported type, two calls of \<open>Fill\<close> write the same bytes,
  whatever the memory and the buffer of each call are: the engine is constructed from
  \<open>kSeed\<close> inside each call and no state of it enters or leaves the function.  In
  particular, after a fill of one buffer and then of a second, disjoint buffer, the two
  buffers hold the same bytes.  The bytes are the objects that the distribution draws from
  an engine constructed with the seed 42.
\<close>

theorem fill_is_reseeded_every_call:
  assumes "ctype_of (type shape) = Some T"
  shows "(\<exists>mem1' mem2'.
            Fill lib mem1 buffer1 shape = Inr mem1' \<and> Fill lib mem2 buffer2 shape = Inr mem2' \<and>
            read_bytes mem1' buffer1 (nat (GetNumElements shape) * sizeof T) =
            read_bytes mem2' buffer2 (nat (GetNumElements shape) * sizeof T))
       \<and> (buffer1 + nat (GetNumElements shape) * sizeof T \<le> buffer2 \<or>
          buffer2 + nat (GetNumElements shape) * sizeof T \<le> buffer1 \<longrightarrow>
          (\<exists>mem' mem''.
            Fill lib mem1 buffer1 shape = Inr mem' \<and> Fill lib mem' buffer2 shape = Inr mem'' \<and>
            read_bytes mem'' buffer1 (nat (GetNumElements shape) * sizeof T) =
            read_bytes mem'' buffer2 (nat (GetNumElements shape) * sizeof T)))
       \<and> (\<exists>mem'.
            Fill lib mem1 buffer1 shape = Inr mem' \<and>
            read_bytes mem' buffer1 (nat (GetNumElements shape) * sizeof T) =
            fill_image (distribution lib T) T (nat (GetNumElements shape)) (mt19937 lib 42))"
proof -
  let ?n = "nat (GetNumElements shape) * sizeof T"
  let ?img = "fill_image (distribution lib T) T (nat (GetNumElements shape)) (mt19937 lib kSeed)"
  have len: "length ?img = ?n" by (rule length_fill_image)
  have r: "\<And>mem buffer. read_bytes (write_bytes mem buffer ?img) buffer ?n = ?img"
    using read_after_write [of _ _ ?img] by (simp only: len)
  have first: "\<exists>mem1' mem2'.
            Fill lib mem1 buffer1 shape = Inr mem1' \<and> Fill lib mem2 buffer2 shape = Inr mem2' \<and>
            read_bytes mem1' buffer1 ?n = read_bytes mem2' buffer2 ?n"
    by (simp add: Fill_supported [OF assms] r)
  have second: "buffer1 + ?n \<le> buffer2 \<or> buffer2 + ?n \<le> buffer1 \<longrightarrow>
          (\<exists>mem' mem''.
            Fill lib mem1 buffer1 shape = Inr mem' \<and> Fill lib mem' buffer2 shape = Inr mem'' \<and>
            read_bytes mem'' buffer1 ?n = read_bytes mem'' buffer2 ?n)"
  proof
    assume "buffer1 + ?n \<le> buffer2 \<or> buffer2 + ?n \<le> buffer1"
    then have "buffer1 + ?n \<le> buffer2 \<or> buffer2 + length ?img \<le> buffer1"
      by (simp only: len)
    then have "read_bytes (write_bytes (write_bytes mem1 buffer1 ?img) buffer2 ?img) buffer1 ?n =
          read_bytes (write_bytes mem1 buffer1 ?img) buffer1 ?n"
      by (rule read_outside_write)
    then show "\<exists>mem' mem''.
            Fill lib mem1 buffer1 shape = Inr mem' \<and> Fill lib mem' buffer2 shape = Inr mem'' \<and>
            read_bytes mem'' buffer1 ?n = read_bytes mem'' buffer2 ?n"
      by (simp add: Fill_supported [OF assms] r)
  qed
  have third: "\<exists>mem'.
            Fill lib mem1 buffer1 shape = Inr mem' \<and>
            read_bytes mem' buffer1 ?n =
            fill_image (distribution lib T) T (nat (GetNumElements shape)) (mt19937 lib 42)"
    using r [of mem1 buffer1] by (simp add: Fill_supported [OF assms] kSeed_def)
  from first second third show ?thesis by blast
qed

theorem fill_is_reseeded_every_call_witness:
  "\<exists>mem' mem''.
     Fill sample_library (\<lambda>a. 0) 16 \<lparr>type = S16, dimensions = [3]\<rparr> = Inr mem' \<and>
     Fill sample_library mem' 32 \<lparr>type = S16, dimensions = [3]\<rparr> = Inr mem'' \<and>
     read_bytes mem'' 16 6 = read_bytes mem'' 32 6"
proof -
  have h: "ctype_of (type \<lparr>type = S16, dimensions = [3]\<rparr>) = Some c_short" by simp
  have n: "nat (GetNumElements \<lparr>type = S16, dimensions = [3]\<rparr>) * sizeof c_short = 6"
    by (simp add: GetNumElements_def wrap32_def)
  have d: "(16::nat) + 6 \<le> 32 \<or> (32::nat) + 6 \<le> 16" by simp
  from fill_is_reseeded_every_call [OF h, where ?buffer1.0 = 16 and ?buffer2.0 = 32
      and lib = sample_library and ?mem1.0 = "\<lambda>a. 0" and ?mem2.0 = "\<lambda>a. 0"] d
  show ?thesis by (simp only: n)
qed



text \<open>
  C9 (the code departs from the claim).  The claim: every value written for an integral type
  lies in \<open>[-100, 100]\<close>.  \<open>FillIntT<T>\<close> passes \<open>kLowerBound\<close> to a distribution over \<open>T\<close>;
  for the unsigned types the bound becomes \<open>2^bits - 100\<close>, above the upper bound 100, which
  the distribution does not allow: for every library, the fill of an \<open>unsigned int\<close> buffer
  draws from \<open>uniform_int_distribution\<close> with the bounds 4294967196 and 100, and nothing
  bounds the values by 100.  The last part runs the sample library of this theory, as one
  instance: the two values it writes for \<open>u32[2]\<close> are above 100; a C++ library writes other
  values, which the standard leaves open.
\<close>

theorem unsigned_fill_leaves_the_range:
  "map (\<lambda>T. (convert T kLowerBound, convert T kUpperBound)) [c_short, c_int, c_long_long] =
     [(- 100, 100), (- 100, 100), (- 100, 100)]
   \<and> map (\<lambda>T. (convert T kLowerBound, convert T kUpperBound))
       [c_unsigned_char, c_unsigned_short, c_unsigned_int, c_unsigned_long_long] =
     [(156, 100), (65436, 100), (4294967196, 100), (18446744073709551516, 100)]
   \<and> (\<exists>mem. Fill sample_library (\<lambda>a. 0) 16 \<lparr>type = U32, dimensions = [2]\<rparr> = Inr mem
        \<and> map (\<lambda>i. load c_unsigned_int mem (16 + i * 4)) [0..<2] = [4294967238, 4294967204])
   \<and> FillIntT lib c_unsigned_int memory0 buffer num_elements =
       fill_loop (uniform_int_distribution lib c_unsigned_int 4294967196 100) c_unsigned_int
         buffer (nat num_elements) 0 (mt19937 lib 42) memory0"
proof -
  have bounds: "map (\<lambda>T. (convert T kLowerBound, convert T kUpperBound)) [c_short, c_int, c_long_long] =
     [(- 100, 100), (- 100, 100), (- 100, 100)]
   \<and> map (\<lambda>T. (convert T kLowerBound, convert T kUpperBound))
       [c_unsigned_char, c_unsigned_short, c_unsigned_int, c_unsigned_long_long] =
     [(156, 100), (65436, 100), (4294967196, 100), (18446744073709551516, 100)]
   \<and> (\<exists>mem. Fill sample_library (\<lambda>a. 0) 16 \<lparr>type = U32, dimensions = [2]\<rparr> = Inr mem
        \<and> map (\<lambda>i. load c_unsigned_int mem (16 + i * 4)) [0..<2] = [4294967238, 4294967204])"
    by (simp add: mem_defs run_defs)
  have call: "FillIntT lib c_unsigned_int memory0 buffer num_elements =
       fill_loop (uniform_int_distribution lib c_unsigned_int 4294967196 100) c_unsigned_int
         buffer (nat num_elements) 0 (mt19937 lib 42) memory0"
    by (simp add: FillIntT_def convert_def kSeed_def kLowerBound_def kUpperBound_def)
  from bounds call show ?thesis by simp
qed

subsection \<open>Byte widths and element counts\<close>

text \<open>
  The byte width is the number in the token, after its first character, divided by 8; the
  token \<open>bf16\<close> has two letters and \<open>std::stoi\<close> throws on \<open>f16\<close>.
\<close>

lemma ByteSize_values:
  "map ByteSize [S16, S32, S64, U8, U16, U32, U64, F16, F32, F64, C64, C128] =
     map Inr [2, 4, 8, 1, 2, 4, 8, 2, 4, 8, 8, 16]
   \<and> ByteSize BF16 = Inl (Uncaught ''std::invalid_argument: stoi'')"
  by (simp add: ByteSize_def run_defs)










subsection \<open>Verbosity and the standard output\<close>

lemma Display_after_Fill:
  "Fill lib mem buffer shape = Inr mem1 \<Longrightarrow>
   Display lib mem2 buffer shape =
     (case ctype_of (type shape) of
        Some T \<Rightarrow> DisplayT lib T mem2 buffer (GetNumElements shape)
      | None \<Rightarrow> [], Inr ())"
  by (cases "type shape")
    (simp_all add: Fill_def Display_def Unsupported_def Log_arg_def ToString_def
      primitive_strings_def ExitWithMsg_def cout_def)

lemma fill_parameter_modes:
  "fill_parameter (env\<lparr>VERBOSE := verbose\<rparr>) assignment table mem param_idx =
     (case check_parameter assignment param_idx of
        Inl e \<Rightarrow> ([], Inl e)
      | Inr shape \<Rightarrow>
          (case at_index table param_idx of
             Inl e \<Rightarrow> ([], Inl e)
           | Inr buffer \<Rightarrow>
               (case Fill (library env) mem buffer shape of
                  Inl e \<Rightarrow> ([], Inl e)
                | Inr mem1 \<Rightarrow>
                    (if verbose then parameter_dump (library env) mem1 buffer shape param_idx
                     else [], Inr mem1))))"
proof (cases "check_parameter assignment param_idx")
  case (Inl e)
  then show ?thesis by (simp add: fill_parameter_def liftE_def)
next
  case shape: (Inr shape)
  show ?thesis
  proof (cases "at_index table param_idx")
    case (Inl e)
    with shape show ?thesis by (simp add: fill_parameter_def liftE_def)
  next
    case buffer: (Inr buffer)
    show ?thesis
    proof (cases "Fill (library env) mem buffer shape")
      case (Inl e)
      with shape buffer show ?thesis by (simp add: fill_parameter_def liftE_def)
    next
      case (Inr mem1)
      from Display_after_Fill [OF Inr, of mem1] shape buffer Inr show ?thesis
        by (simp add: fill_parameter_def liftE_def cout_def IsVerbose_def parameter_dump_def)
    qed
  qed
qed

lemma fill_parameters_modes:
  "fst (fill_parameters (env\<lparr>VERBOSE := verbose\<rparr>) assignment table params mem) =
     (if verbose then parameter_dumps env assignment table params mem else [])
   \<and> snd (fill_parameters (env\<lparr>VERBOSE := verbose\<rparr>) assignment table params mem) =
     snd (fill_parameters (env\<lparr>VERBOSE := False\<rparr>) assignment table params mem)"
proof (induction params arbitrary: mem)
  case Nil
  show ?case by (simp add: liftE_def)
next
  case (Cons param_idx rest)
  show ?case
  proof (cases verbose)
    case True
    with Cons.IH show ?thesis
      by (auto simp: fill_parameter_modes split_def split: sum.splits)
  next
    case False
    with Cons.IH show ?thesis
      by (auto simp: fill_parameter_modes split_def split: sum.splits)
  qed
qed

lemma main_modes:
  "snd (main (env\<lparr>VERBOSE := True\<rparr>) args) = snd (main (env\<lparr>VERBOSE := False\<rparr>) args)
   \<and> fst (main (env\<lparr>VERBOSE := True\<rparr>) args) =
     verbose_text env args @ fst (main (env\<lparr>VERBOSE := False\<rparr>) args)"
proof (cases args)
  case Nil
  then show ?thesis by (simp add: main_def liftE_def verbose_text_def)
next
  case (Cons arg more)
  show ?thesis
  proof (cases "arg = ''--help''")
    case True
    with Cons show ?thesis by (simp add: main_def verbose_text_def)
  next
    case False
    show ?thesis
    proof (cases "ParseBufferAssignment (file_lines env arg)")
      case (Inl e)
      with Cons False show ?thesis by (simp add: main_def liftE_def verbose_text_def)
    next
      case (Inr assignment)
      let ?table = "BufferTable env assignment"
      have table: "BufferTable (env\<lparr>VERBOSE := True\<rparr>) assignment = ?table"
        "BufferTable (env\<lparr>VERBOSE := False\<rparr>) assignment = ?table"
        by (simp_all add: BufferTable_def)
      obtain r where q: "fill_parameters (env\<lparr>VERBOSE := False\<rparr>) assignment ?table
          (params_idx assignment) (initial_memory env) = ([], r)"
        using fill_parameters_modes [where env = env and verbose = False
            and assignment = assignment and table = ?table and params = "params_idx assignment"
            and mem = "initial_memory env"]
        by (cases "fill_parameters (env\<lparr>VERBOSE := False\<rparr>) assignment ?table
          (params_idx assignment) (initial_memory env)") simp
      with fill_parameters_modes [where env = env and verbose = True
            and assignment = assignment and table = ?table and params = "params_idx assignment"
            and mem = "initial_memory env"]
      have v: "fill_parameters (env\<lparr>VERBOSE := True\<rparr>) assignment ?table
          (params_idx assignment) (initial_memory env) =
          (parameter_dumps env assignment ?table (params_idx assignment) (initial_memory env), r)"
        by (cases "fill_parameters (env\<lparr>VERBOSE := True\<rparr>) assignment ?table
          (params_idx assignment) (initial_memory env)") simp
      show ?thesis
      proof (cases r)
        case (Inl e)
        with Cons False Inr v q table show ?thesis
          by (simp add: main_def liftE_def verbose_text_def)
      next
        case mem: (Inr mem)
        with Cons False Inr v q table show ?thesis
          by (simp add: main_def liftE_def Let_def split_def verbose_text_def)
      qed
    qed
  qed
qed

lemma main_without_parameters:
  assumes "\<forall>assignment. ParseBufferAssignment (file_lines env (hd args)) = Inr assignment \<longrightarrow>
             params_idx assignment = []"
  shows "main (env\<lparr>VERBOSE := True\<rparr>) args = main (env\<lparr>VERBOSE := False\<rparr>) args"
proof (cases args)
  case Nil
  then show ?thesis by (simp add: main_def)
next
  case (Cons arg more)
  show ?thesis
  proof (cases "ParseBufferAssignment (file_lines env arg)")
    case (Inl e)
    with Cons show ?thesis by (simp add: main_def liftE_def)
  next
    case (Inr assignment)
    with assms Cons have "params_idx assignment = []" by simp
    with Cons Inr show ?thesis by (simp add: main_def BufferTable_def liftE_def)
  qed
qed

text \<open>
  C1 (as amended).  The way a run ends (status 0, or the failure and its diagnostic) is the
  same with and without \<open>VERBOSE\<close>.  The standard output with \<open>VERBOSE\<close> set is the standard
  output without it, preceded by \<open>verbose_text\<close>: for each parameter that the run fills, in
  order, the line \<open>Filled parameter buffer for param <idx>: \<close> and the line of the elements
  of its buffer after the fill, and nothing else.  For an assignment without parameters the
  two runs print the same.
\<close>

theorem verbose_adds_parameter_dumps:
  "snd (main (env\<lparr>VERBOSE := True\<rparr>) args) = snd (main (env\<lparr>VERBOSE := False\<rparr>) args)
   \<and> fst (main (env\<lparr>VERBOSE := True\<rparr>) args) =
     verbose_text env args @ fst (main (env\<lparr>VERBOSE := False\<rparr>) args)
   \<and> ((\<forall>assignment. ParseBufferAssignment (file_lines env (hd args)) = Inr assignment \<longrightarrow>
          params_idx assignment = []) \<longrightarrow>
       main (env\<lparr>VERBOSE := True\<rparr>) args = main (env\<lparr>VERBOSE := False\<rparr>) args)"
  using main_modes [of env args] main_without_parameters [of env args] by blast

subsection \<open>A run with one parameter\<close>

lemmas main_defs =
  main_def sample_environment_def BufferTable_def fill_parameter_def check_parameter_def
  shape_at_def at_index_def trunc_div_def IsVerbose_def ByteSize_def


lemma run_parse: "ParseBufferAssignment
     [''allocation 0: 0x1, size 8, parameter 0, shape |s32[2]|'',
      ''allocation 1: 0x2, size 8, output shape is |s32[2]|,''] =
   Inr \<lparr>buffers_size = [8, 8],
        buffers_shape = [0 \<mapsto> \<lparr>elements = [\<lparr>type = S32, dimensions = [2]\<rparr>]\<rparr>,
                         1 \<mapsto> \<lparr>elements = [\<lparr>type = S32, dimensions = [2]\<rparr>]\<rparr>],
        params_idx = [0], output_idx = 1\<rparr>"
  by (simp add: run_defs)

lemma run_check: "check_parameter \<lparr>buffers_size = [8, 8],
        buffers_shape = [0 \<mapsto> \<lparr>elements = [\<lparr>type = S32, dimensions = [2]\<rparr>]\<rparr>,
                         1 \<mapsto> \<lparr>elements = [\<lparr>type = S32, dimensions = [2]\<rparr>]\<rparr>],
        params_idx = [0], output_idx = 1\<rparr> 0 = Inr \<lparr>type = S32, dimensions = [2]\<rparr>"
  by (simp add: main_defs mem_defs run_defs)


lemma draws_numeral:
  "draws distr (numeral n) generator =
     (case distr generator of (v, generator') \<Rightarrow> v # draws distr (pred_numeral n) generator')"
  by (simp add: numeral_eq_Suc)

lemma run_image: "fill_image (distribution sample_library c_int) c_int 2 (mt19937 sample_library kSeed)
   = [198, 255, 255, 255, 164, 255, 255, 255]"
  by (simp add: fill_image_def distribution_def mem_defs draws_numeral)

lemma run_fill: "Fill sample_library mem 4096 \<lparr>type = S32, dimensions = [2]\<rparr> =
   Inr (write_bytes mem 4096 [198, 255, 255, 255, 164, 255, 255, 255])"
proof -
  have "ctype_of (type \<lparr>type = S32, dimensions = [2]\<rparr>) = Some c_int" by simp
  from Fill_supported [OF this, of sample_library mem 4096] show ?thesis
    by (simp add: GetNumElements_def wrap32_def run_image)
qed

lemma run_display_parameter: "Display sample_library (write_bytes (\<lambda>a. 0) 4096 [198, 255, 255, 255, 164, 255, 255, 255])
     4096 \<lparr>type = S32, dimensions = [2]\<rparr> = (''-58, -92'' @ endl, Inr ())"
  by (simp add: mem_defs run_defs)

lemma run_display_output: "Display_tuple sample_library (write_bytes (\<lambda>a. 0) 4096 [198, 255, 255, 255, 164, 255, 255, 255])
     8192 \<lparr>elements = [\<lparr>type = S32, dimensions = [2]\<rparr>]\<rparr> = (''0, 0'' @ endl, Inr ())"
  by (simp add: mem_defs run_defs)


lemma run_table: "BufferTable (sample_environment verbose lines)
     \<lparr>buffers_size = [8, 8],
      buffers_shape = [0 \<mapsto> \<lparr>elements = [\<lparr>type = S32, dimensions = [2]\<rparr>]\<rparr>,
                       1 \<mapsto> \<lparr>elements = [\<lparr>type = S32, dimensions = [2]\<rparr>]\<rparr>],
      params_idx = [0], output_idx = 1\<rparr> = [4096, 8192]"
  by (simp add: BufferTable_def sample_environment_def upt_rec [of 0] upt_rec [of "Suc n" for n])


lemma run_fill_parameters: "fill_parameters (sample_environment verbose lines)
     \<lparr>buffers_size = [8, 8],
      buffers_shape = [0 \<mapsto> \<lparr>elements = [\<lparr>type = S32, dimensions = [2]\<rparr>]\<rparr>,
                       1 \<mapsto> \<lparr>elements = [\<lparr>type = S32, dimensions = [2]\<rparr>]\<rparr>],
      params_idx = [0], output_idx = 1\<rparr> [4096, 8192] [0] (\<lambda>a. 0) =
   (if verbose then ''Filled parameter buffer for param 0: '' @ endl @ ''-58, -92'' @ endl else [],
    Inr (write_bytes (\<lambda>a. 0) 4096 [198, 255, 255, 255, 164, 255, 255, 255]))"
proof -
  define mem1 where "mem1 = write_bytes (\<lambda>a. 0) 4096 [198, 255, 255, 255, 164, 255, 255, 255]"
  have lib: "library (sample_environment b lines) = sample_library"
    and v: "IsVerbose (sample_environment b lines) = b" for b
    by (simp_all add: sample_environment_def IsVerbose_def)
  have zero: "to_string 0 = ''0''" by (simp add: run_defs)
  note fill = run_fill [of "\<lambda>a. 0", folded mem1_def]
  note display = run_display_parameter [folded mem1_def]
  have "fill_parameters (sample_environment verbose lines)
     \<lparr>buffers_size = [8, 8],
      buffers_shape = [0 \<mapsto> \<lparr>elements = [\<lparr>type = S32, dimensions = [2]\<rparr>]\<rparr>,
                       1 \<mapsto> \<lparr>elements = [\<lparr>type = S32, dimensions = [2]\<rparr>]\<rparr>],
      params_idx = [0], output_idx = 1\<rparr> [4096, 8192] [0] (\<lambda>a. 0) =
   (if verbose then ''Filled parameter buffer for param 0: '' @ endl @ ''-58, -92'' @ endl else [],
    Inr mem1)"
    by (simp add: fill_parameter_def run_check fill display lib v zero at_index_def liftE_def cout_def)
  then show ?thesis by (simp only: mem1_def)
qed

lemma run_print_shape: "TupleShapeToString \<lparr>elements = [\<lparr>type = S32, dimensions = [2]\<rparr>]\<rparr> = Inr ''s32[2]''"
  by (simp add: run_defs)

text \<open>
  The run of the sample environment on a file with one parameter: the text added under
  \<open>VERBOSE\<close> is the line that names parameter 0 and the two elements of its buffer.  On a
  file without parameters the two runs are equal.
\<close>

theorem verbose_adds_parameter_dumps_witness:
  "fst (main (sample_environment True
           [''allocation 0: 0x1, size 8, parameter 0, shape |s32[2]|'',
            ''allocation 1: 0x2, size 8, output shape is |s32[2]|,'']) [''f'']) =
     ''Filled parameter buffer for param 0: '' @ endl @ ''-58, -92'' @ endl @
     fst (main (sample_environment False
           [''allocation 0: 0x1, size 8, parameter 0, shape |s32[2]|'',
            ''allocation 1: 0x2, size 8, output shape is |s32[2]|,'']) [''f''])
   \<and> snd (main (sample_environment True
           [''allocation 0: 0x1, size 8, parameter 0, shape |s32[2]|'',
            ''allocation 1: 0x2, size 8, output shape is |s32[2]|,'']) [''f'']) =
     snd (main (sample_environment False
           [''allocation 0: 0x1, size 8, parameter 0, shape |s32[2]|'',
            ''allocation 1: 0x2, size 8, output shape is |s32[2]|,'']) [''f''])
   \<and> main (sample_environment True
           [''allocation 0: 0x1, size 8, output shape is |s32[2]|,'']) [''f''] =
     main (sample_environment False
           [''allocation 0: 0x1, size 8, output shape is |s32[2]|,'']) [''f'']"
proof -
  let ?lines = "[''allocation 0: 0x1, size 8, parameter 0, shape |s32[2]|'',
            ''allocation 1: 0x2, size 8, output shape is |s32[2]|,'']"
  let ?env = "sample_environment False ?lines"
  let ?bare = "sample_environment False [''allocation 0: 0x1, size 8, output shape is |s32[2]|,'']"
  define mem1 where "mem1 = write_bytes (\<lambda>a. 0) 4096 [198, 255, 255, 255, 164, 255, 255, 255]"
  have env: "file_lines ?env ''f'' = ?lines" "initial_memory ?env = (\<lambda>a. 0)"
    "library ?env = sample_library"
    by (simp_all add: sample_environment_def)
  have zero: "to_string 0 = ''0''" by (simp add: run_defs)
  note fill = run_fill [of "\<lambda>a. 0", folded mem1_def]
  have elements: "DisplayT sample_library c_int mem1 4096
      (GetNumElements \<lparr>type = S32, dimensions = [2]\<rparr>) = ''-58, -92'' @ endl"
    using run_display_parameter [folded mem1_def] by (simp add: Display_def cout_def Let_def)
  have dump: "verbose_text ?env [''f''] =
      ''Filled parameter buffer for param 0: '' @ endl @ ''-58, -92'' @ endl"
    by (simp add: verbose_text_def env run_parse run_table run_check fill elements zero
        parameter_dump_def at_index_def)
  have no_parameters: "\<forall>assignment.
      ParseBufferAssignment (file_lines ?bare (hd [''f''])) = Inr assignment \<longrightarrow>
      params_idx assignment = []"
    by (simp add: sample_environment_def run_defs)
  have modes: "e\<lparr>VERBOSE := True\<rparr> = sample_environment True ls"
    "e\<lparr>VERBOSE := False\<rparr> = sample_environment False ls"
    if "e = sample_environment False ls" for e ls
    using that by (simp_all add: sample_environment_def)
  from verbose_adds_parameter_dumps [of ?env "[''f'']"]
  have "snd (main (?env\<lparr>VERBOSE := True\<rparr>) [''f'']) = snd (main (?env\<lparr>VERBOSE := False\<rparr>) [''f''])"
    and "fst (main (?env\<lparr>VERBOSE := True\<rparr>) [''f'']) =
         verbose_text ?env [''f''] @ fst (main (?env\<lparr>VERBOSE := False\<rparr>) [''f''])"
    by blast+
  moreover from verbose_adds_parameter_dumps [of ?bare "[''f'']"] no_parameters
  have "main (?bare\<lparr>VERBOSE := True\<rparr>) [''f''] = main (?bare\<lparr>VERBOSE := False\<rparr>) [''f'']"
    by blast
  ultimately show ?thesis
    by (simp only: modes [OF refl] dump append_assoc) 
qed

text \<open>
  The claim as stated fails: with \<open>VERBOSE\<close> set, \<open>main\<close> writes the line
  \<open>Filled parameter buffer for param\<close> and the contents of each parameter buffer to the
  standard output.
\<close>

theorem verbose_changes_standard_output:
  "main (sample_environment False
           [''allocation 0: 0x1, size 8, parameter 0, shape |s32[2]|'',
            ''allocation 1: 0x2, size 8, output shape is |s32[2]|,'']) [''f''] =
     (''Output:'' @ endl @ ''0, 0'' @ endl, Inr ())
   \<and> main (sample_environment True
           [''allocation 0: 0x1, size 8, parameter 0, shape |s32[2]|'',
            ''allocation 1: 0x2, size 8, output shape is |s32[2]|,'']) [''f''] =
     (''Filled parameter buffer for param 0: '' @ endl @ ''-58, -92'' @ endl @
      ''Output:'' @ endl @ ''0, 0'' @ endl, Inr ())
   \<and> fst (main (sample_environment True
           [''allocation 0: 0x1, size 8, parameter 0, shape |s32[2]|'',
            ''allocation 1: 0x2, size 8, output shape is |s32[2]|,'']) [''f'']) \<noteq>
     fst (main (sample_environment False
           [''allocation 0: 0x1, size 8, parameter 0, shape |s32[2]|'',
            ''allocation 1: 0x2, size 8, output shape is |s32[2]|,'']) [''f''])"
proof -
  let ?lines = "[''allocation 0: 0x1, size 8, parameter 0, shape |s32[2]|'',
            ''allocation 1: 0x2, size 8, output shape is |s32[2]|,'']"
  define mem1 where "mem1 = write_bytes (\<lambda>a. 0) 4096 [198, 255, 255, 255, 164, 255, 255, 255]"
  have env: "file_lines (sample_environment verbose ?lines) ''f'' = ?lines"
    "initial_memory (sample_environment verbose ?lines) = (\<lambda>a. 0)"
    "EntryModule (sample_environment verbose ?lines) table mem = mem"
    "library (sample_environment verbose ?lines) = sample_library"
    for verbose table mem
    by (simp_all add: sample_environment_def)
  note params = run_fill_parameters [folded mem1_def]
  note shown = run_display_output [folded mem1_def]
  have "main (sample_environment verbose ?lines) [''f''] =
        ((if verbose then ''Filled parameter buffer for param 0: '' @ endl @ ''-58, -92'' @ endl
          else []) @ ''Output:'' @ endl @ ''0, 0'' @ endl, Inr ())" for verbose
    by (simp add: main_def env run_parse run_table params run_print_shape shown shape_at_def
        at_index_def liftE_def cout_def Log_arg_def Let_def del: fill_parameters.simps)
  from this [of False] this [of True] show ?thesis by (simp add: endl_def)
qed

subsection \<open>The number of allocations\<close>

text \<open>
  The index group of the allocation pattern is one digit, and an accepted index is the
  number of allocations read so far: no parse yields more than ten allocations.
\<close>

lemma match_lits:
  "match_here full (lits p @ r) s =
   (if take (length p) s = p then match_here full r (drop (length p) s) else None)"
proof (induction p arbitrary: s)
  case Nil
  show ?case by (simp add: lits_def)
next
  case (Cons a p)
  show ?case
  proof (cases s)
    case Nil
    then show ?thesis by (simp add: lits_def)
  next
    case (Cons c cs)
    with Cons.IH [of cs] show ?thesis by (auto simp: lits_def)
  qed
qed

lemma header_index_one_digit:
  assumes "match_here False allocation_line_r s = Some m"
  shows "\<exists>c. is_digit c \<and> groups m ! 0 = [c]"
proof -
  let ?rest = "lits '': '' @ [Plus Dot] @ lits '', size '' @ [Open, Plus Digit, Close] @
     lits '', '' @ [Open, Plus Dot, Close]"
  let ?s1 = "drop (length ''allocation '') s"
  from assms have "match_here False (Open # One Digit # Close # ?rest) ?s1 = Some m"
    using match_lits [of False "''allocation ''" "Open # One Digit # Close # ?rest" s]
    by (simp add: allocation_line_r_def split: if_splits)
  then obtain m1 where m: "m = ?s1 # m1" and m1: "match_here False (One Digit # Close # ?rest) ?s1 = Some m1"
    by auto
  from m1 obtain c s2 where s1: "?s1 = c # s2" and c: "is_digit c"
    and m2: "match_here False (Close # ?rest) s2 = Some m1"
    by (cases ?s1) (auto split: if_splits)
  from m2 obtain m3 where "m1 = s2 # m3" by auto
  with m s1 have "groups m ! 0 = [c]" by simp
  with c show ?thesis by blast
qed

lemma search_index_one_digit:
  "regex_search allocation_line_r line = Some match \<Longrightarrow> \<exists>c. is_digit c \<and> match ! 0 = [c]"
proof (induction line)
  case Nil
  then show ?case using header_index_one_digit [of "[]"] by auto
next
  case (Cons x line)
  show ?case
  proof (cases "match_here False allocation_line_r (x # line)")
    case None
    with Cons show ?thesis by simp
  next
    case (Some m)
    with Cons.prems have "match = groups m" by simp
    with header_index_one_digit [OF Some] show ?thesis by simp
  qed
qed

lemma stoi_one_digit:
  assumes "is_digit c"
  shows "\<exists>v. stoi [c] = Inr v \<and> 0 \<le> v \<and> v \<le> 9"
proof -
  have d: "dim_token [c]" using assms by (simp add: dim_token_def)
  have v: "digits_val [c] = digit_val c" by (simp add: digits_val_def)
  have lt: "digit_val c < 10" using assms by (rule digit_facts)
  then have "int (digits_val [c]) \<le> INT_MAX" by (simp add: v INT_MAX_def)
  from stoi_digits [OF d this] lt show ?thesis by (simp add: v)
qed


lemma parse_output_size:
  "parse_output a idx postfix = Inr a' \<Longrightarrow> buffers_size a' = buffers_size a"
  by (auto simp: parse_output_def bindE_eq_Inr split: option.splits)

lemma parse_parameter_size:
  "parse_parameter a idx postfix = Inr a' \<Longrightarrow> buffers_size a' = buffers_size a"
  by (auto simp: parse_parameter_def bindE_eq_Inr split: option.splits)

lemma parse_line_at_most_ten:
  assumes "parse_line a line = Inr a'" "length (buffers_size a) \<le> 10"
  shows "length (buffers_size a') \<le> 10"
proof (cases "regex_search allocation_line_r line")
  case None
  with assms show ?thesis by (simp add: parse_line_def)
next
  case (Some match)
  from search_index_one_digit [OF Some] obtain c where c: "is_digit c" "match ! 0 = [c]" by blast
  from stoi_one_digit [OF c(1)] obtain v where v: "stoi [c] = Inr v" "v \<le> 9" by blast
  from assms(1) Some c(2) v(1) obtain bytes a1 where
    idx: "v = int (length (buffers_size a))"
    and a1: "parse_output (a\<lparr>buffers_size := buffers_size a @ [bytes]\<rparr>) v (match ! 2) = Inr a1"
    and a': "parse_parameter a1 v (match ! 2) = Inr a'"
    by (auto simp: parse_line_def Check_def ExitWithMsg_def bindE_eq_Inr split: if_splits)
  from parse_output_size [OF a1] parse_parameter_size [OF a']
  have "length (buffers_size a') = Suc (length (buffers_size a))" by simp
  with idx v(2) show ?thesis by simp
qed

lemma parse_lines_at_most_ten:
  "parse_lines a lines = Inr a' \<Longrightarrow> length (buffers_size a) \<le> 10 \<Longrightarrow>
   length (buffers_size a') \<le> 10"
proof (induction lines arbitrary: a)
  case Nil
  then show ?case by simp
next
  case (Cons line lines)
  from Cons.prems(1) obtain a1 where "parse_line a line = Inr a1" "parse_lines a1 lines = Inr a'"
    by (auto simp: bindE_eq_Inr)
  with Cons.IH parse_line_at_most_ten Cons.prems(2) show ?case by blast
qed

lemma at_most_ten_allocations:
  "ParseBufferAssignment lines = Inr a \<Longrightarrow> length (buffers_size a) \<le> 10"
  using parse_lines_at_most_ten [of new_assignment lines a]
  by (auto simp: ParseBufferAssignment_def bindE_eq_Inr new_assignment_def)

subsection \<open>The size check on a parsed file\<close>

















text \<open>
  The theorem is about a parameter whose number is the index of its allocation.  When the
  two differ, the entry of \<open>params_idx\<close> is the number (C4) and the check reads the allocation
  with that index: below, parameter 0 has one element of four bytes in an allocation of 400
  bytes; the check is made on the size and the shape of allocation 0, the output, and
  passes; the run fills the buffer of the output and returns 0.
\<close>

lemma run_other_parse: "ParseBufferAssignment
          [''allocation 0: 0x1, size 4, output shape is |s32[1]|,'',
           ''allocation 1: 0x2, size 400, parameter 0, shape |s32[1]|''] =
   Inr \<lparr>buffers_size = [4, 400],
        buffers_shape = [0 \<mapsto> \<lparr>elements = [\<lparr>type = S32, dimensions = [1]\<rparr>]\<rparr>,
                         1 \<mapsto> \<lparr>elements = [\<lparr>type = S32, dimensions = [1]\<rparr>]\<rparr>],
        params_idx = [0], output_idx = 0\<rparr>"
  by (simp add: run_defs)

lemma parameter_in_another_allocation:
  "check_parameter
     \<lparr>buffers_size = [4, 400],
      buffers_shape = [0 \<mapsto> \<lparr>elements = [\<lparr>type = S32, dimensions = [1]\<rparr>]\<rparr>,
                       1 \<mapsto> \<lparr>elements = [\<lparr>type = S32, dimensions = [1]\<rparr>]\<rparr>],
      params_idx = [0], output_idx = 0\<rparr> 0 = Inr \<lparr>type = S32, dimensions = [1]\<rparr>
   \<and> check_parameter
     \<lparr>buffers_size = [4, 400],
      buffers_shape = [0 \<mapsto> \<lparr>elements = [\<lparr>type = S32, dimensions = [1]\<rparr>]\<rparr>,
                       1 \<mapsto> \<lparr>elements = [\<lparr>type = S32, dimensions = [1]\<rparr>]\<rparr>],
      params_idx = [0], output_idx = 0\<rparr> 1 = Inl (Exit ''Unexpected number of elements'')
   \<and> main (sample_environment False
          [''allocation 0: 0x1, size 4, output shape is |s32[1]|,'',
           ''allocation 1: 0x2, size 400, parameter 0, shape |s32[1]|'']) [''f''] =
     (''Output:'' @ endl @ ''-58'' @ endl, Inr ())"
proof -
  let ?lines = "[''allocation 0: 0x1, size 4, output shape is |s32[1]|,'',
           ''allocation 1: 0x2, size 400, parameter 0, shape |s32[1]|'']"
  let ?shape = "\<lparr>type = S32, dimensions = [1]\<rparr>"
  let ?a = "\<lparr>buffers_size = [4, 400],
        buffers_shape = [0 \<mapsto> \<lparr>elements = [?shape]\<rparr>, 1 \<mapsto> \<lparr>elements = [?shape]\<rparr>],
        params_idx = [0], output_idx = 0\<rparr>"
  define mem1 where "mem1 = write_bytes (\<lambda>a. 0) 4096 [198, 255, 255, 255]"
  have env: "file_lines (sample_environment False ?lines) ''f'' = ?lines"
    "initial_memory (sample_environment False ?lines) = (\<lambda>a. 0)"
    "EntryModule (sample_environment False ?lines) table mem = mem"
    "library (sample_environment False ?lines) = sample_library"
    "IsVerbose (sample_environment False ?lines) = False"
    for table mem
    by (simp_all add: sample_environment_def IsVerbose_def)
  have table: "BufferTable (sample_environment False ?lines) ?a = [4096, 8192]"
    by (simp add: BufferTable_def sample_environment_def upt_rec [of 0] upt_rec [of "Suc n" for n])
  have check: "check_parameter ?a 0 = Inr ?shape"
    by (simp add: main_defs mem_defs run_defs)
  have own: "check_parameter ?a 1 = Inl (Exit ''Unexpected number of elements'')"
    by (simp add: main_defs mem_defs run_defs)
  have drawn: "fill_image (distribution sample_library c_int) c_int (Suc 0)
      (mt19937 sample_library kSeed) = [198, 255, 255, 255]"
    by (simp add: fill_image_def distribution_def mem_defs)
  have "ctype_of (type ?shape) = Some c_int" by simp
  from Fill_supported [OF this, of sample_library "\<lambda>a. 0" 4096]
  have fill: "Fill sample_library (\<lambda>a. 0) 4096 ?shape = Inr mem1"
    by (simp add: GetNumElements_def wrap32_def drawn mem1_def)
  have shown: "Display_tuple sample_library mem1 4096 \<lparr>elements = [?shape]\<rparr> =
      (''-58'' @ endl, Inr ())"
    unfolding mem1_def by (simp add: mem_defs run_defs)
  have printed: "TupleShapeToString \<lparr>elements = [?shape]\<rparr> = Inr ''s32[1]''"
    by (simp add: run_defs)
  have params: "fill_parameters (sample_environment False ?lines) ?a [4096, 8192] [0] (\<lambda>a. 0) =
      ([], Inr mem1)"
    by (simp add: fill_parameter_def check fill env at_index_def liftE_def cout_def)
  have "main (sample_environment False ?lines) [''f''] = (''Output:'' @ endl @ ''-58'' @ endl, Inr ())"
    by (simp add: main_def env run_other_parse table params printed shown shape_at_def
        at_index_def liftE_def cout_def Log_arg_def Let_def del: fill_parameters.simps)
  with check own show ?thesis by simp
qed

end
